theory Spec2Isabelle
  imports Complex_Main
begin

section \<open>Common conventions\<close>

text \<open>
  The package targets Python 2.7 (see \<^verbatim>\<open>setup.py\<close>). Python integers are unbounded and
  are modelled by \<^typ>\<open>int\<close>. Every \<^verbatim>\<open>assert\<close> and every exception raised by the
  interpreter is a value of the type \<open>error\<close>, returned on the left of a sum.
\<close>

datatype error =
    AssertionError
  | ZeroDivisionError
  | IndexError
  | AttributeError
  | ValueError
  | OverflowError

section \<open>Python floats\<close>

text \<open>
  A Python float is an IEEE 754 binary64 value: a finite number, one of the two
  infinities, or NaN. A finite value carries the real number it denotes. The sign of a
  zero is left out: no operation below tells the two zeros apart (a division by either
  raises). All NaNs are one value.
\<close>

datatype pyfloat = Finite real | PosInf | NegInf | NaN

text \<open>Rounding a real to the nearest integer, a tie going to the even one.\<close>

definition round_half_even :: "real \<Rightarrow> int" where
  "round_half_even x =
     (let f = \<lfloor>x\<rfloor>; d = x - of_int f
      in if d < 1 / 2 then f else if 1 / 2 < d then f + 1 else if even f then f else f + 1)"

text \<open>
  The exponent of the unit in the last place of the doubles around \<open>x\<close>: 52 below the
  exponent of \<open>x\<close> for a normal number, and -1074 in the subnormal range.
\<close>

definition double_exponent :: "real \<Rightarrow> int" where
  "double_exponent x = max (\<lfloor>log 2 \<bar>x\<bar>\<rfloor> - 52) (- 1074)"

text \<open>
  Round to nearest, ties to even, with 53 significant bits; a result of magnitude
  \<open>2 ^ 1024\<close> or more overflows to an infinity.
\<close>

definition round_double :: "real \<Rightarrow> pyfloat" where
  "round_double x =
     (if x = 0 then Finite 0
      else (let u = 2 powi (double_exponent x);
                y = of_int (round_half_even (x / u)) * u
            in if 2 ^ 1024 \<le> \<bar>y\<bar> then (if 0 < x then PosInf else NegInf) else Finite y))"

text \<open>The reals that a double holds: those that rounding leaves as they are.\<close>

definition is_double :: "real \<Rightarrow> bool" where
  "is_double x = (round_double x = Finite x)"

text \<open>An infinity with the sign of \<open>s\<close>; NaN for a zero, as in \<open>inf * 0\<close>.\<close>

definition signed_inf :: "real \<Rightarrow> pyfloat" where
  "signed_inf s = (if s = 0 then NaN else if 0 < s then PosInf else NegInf)"

fun fneg :: "pyfloat \<Rightarrow> pyfloat" where
  "fneg (Finite a) = Finite (- a)"
| "fneg PosInf = NegInf"
| "fneg NegInf = PosInf"
| "fneg NaN = NaN"

fun fadd :: "pyfloat \<Rightarrow> pyfloat \<Rightarrow> pyfloat" where
  "fadd (Finite a) (Finite b) = round_double (a + b)"
| "fadd (Finite a) PosInf = PosInf"
| "fadd (Finite a) NegInf = NegInf"
| "fadd PosInf (Finite b) = PosInf"
| "fadd PosInf PosInf = PosInf"
| "fadd PosInf NegInf = NaN"
| "fadd NegInf (Finite b) = NegInf"
| "fadd NegInf NegInf = NegInf"
| "fadd NegInf PosInf = NaN"
| "fadd NaN y = NaN"
| "fadd x NaN = NaN"

definition fsub :: "pyfloat \<Rightarrow> pyfloat \<Rightarrow> pyfloat" where
  "fsub x y = fadd x (fneg y)"

fun fmul :: "pyfloat \<Rightarrow> pyfloat \<Rightarrow> pyfloat" where
  "fmul (Finite a) (Finite b) = round_double (a * b)"
| "fmul (Finite a) PosInf = signed_inf a"
| "fmul (Finite a) NegInf = signed_inf (- a)"
| "fmul PosInf (Finite b) = signed_inf b"
| "fmul NegInf (Finite b) = signed_inf (- b)"
| "fmul PosInf PosInf = PosInf"
| "fmul PosInf NegInf = NegInf"
| "fmul NegInf PosInf = NegInf"
| "fmul NegInf NegInf = PosInf"
| "fmul NaN y = NaN"
| "fmul x NaN = NaN"

text \<open>
  \<^verbatim>\<open>x / y\<close> on floats: Python raises \<^verbatim>\<open>ZeroDivisionError\<close> for a zero divisor before it
  looks at the dividend, and leaves every other case to IEEE division.
\<close>

fun fdiv :: "pyfloat \<Rightarrow> pyfloat \<Rightarrow> error + pyfloat" where
  "fdiv x (Finite b) =
     (if b = 0 then Inl ZeroDivisionError
      else (case x of
              Finite a \<Rightarrow> Inr (round_double (a / b))
            | PosInf \<Rightarrow> Inr (signed_inf b)
            | NegInf \<Rightarrow> Inr (signed_inf (- b))
            | NaN \<Rightarrow> Inr NaN))"
| "fdiv (Finite a) PosInf = Inr (Finite 0)"
| "fdiv (Finite a) NegInf = Inr (Finite 0)"
| "fdiv x y = Inr NaN"

text \<open>\<^verbatim>\<open>x < y\<close> and \<^verbatim>\<open>x <= y\<close>: false whenever an operand is NaN.\<close>

fun flt :: "pyfloat \<Rightarrow> pyfloat \<Rightarrow> bool" where
  "flt (Finite a) (Finite b) = (a < b)"
| "flt (Finite a) PosInf = True"
| "flt NegInf (Finite b) = True"
| "flt NegInf PosInf = True"
| "flt x y = False"

fun fle :: "pyfloat \<Rightarrow> pyfloat \<Rightarrow> bool" where
  "fle (Finite a) (Finite b) = (a \<le> b)"
| "fle (Finite a) PosInf = True"
| "fle NegInf (Finite b) = True"
| "fle NegInf PosInf = True"
| "fle PosInf PosInf = True"
| "fle NegInf NegInf = True"
| "fle x y = False"

text \<open>
  \<^verbatim>\<open>int(x)\<close> on a float truncates toward zero; it raises \<^verbatim>\<open>OverflowError\<close> for an
  infinity and \<^verbatim>\<open>ValueError\<close> for NaN.
\<close>

definition py_trunc :: "real \<Rightarrow> int" where
  "py_trunc x = (if 0 \<le> x then \<lfloor>x\<rfloor> else \<lceil>x\<rceil>)"

fun py_int :: "pyfloat \<Rightarrow> error + int" where
  "py_int (Finite x) = Inr (py_trunc x)"
| "py_int PosInf = Inl OverflowError"
| "py_int NegInf = Inl OverflowError"
| "py_int NaN = Inl ValueError"

text \<open>
  The conversion of an integer operand in mixed arithmetic: correctly rounded, and an
  \<^verbatim>\<open>OverflowError\<close> for an integer too large for a float.
\<close>

definition float_of_int :: "int \<Rightarrow> error + pyfloat" where
  "float_of_int n =
     (case round_double (of_int n) of Finite y \<Rightarrow> Inr (Finite y) | _ \<Rightarrow> Inl OverflowError)"

section \<open>gnipMath: general math\<close>

text \<open>
  \<^verbatim>\<open>return int((num+(target//2))//target)*target\<close> on integers. Floor division by
  zero raises \<^verbatim>\<open>ZeroDivisionError\<close>; \<open>div\<close> on \<^typ>\<open>int\<close> is floor division, as
  \<^verbatim>\<open>//\<close> is.
\<close>

definition NearestMultiple :: "int \<Rightarrow> int \<Rightarrow> error + int" where
  "NearestMultiple num target =
     (if target = 0 then Inl ZeroDivisionError
      else Inr (((num + (target div 2)) div target) * target))"

text \<open>
  \<^verbatim>\<open>offset = val - min; delta = max - min; return float(offset)/delta\<close>, on float
  arguments (an integer argument that a double holds behaves as that double here).
\<close>

definition InverseLerp :: "pyfloat \<Rightarrow> pyfloat \<Rightarrow> pyfloat \<Rightarrow> error + pyfloat" where
  "InverseLerp val min_v max_v =
     (let offset = fsub val min_v;
          delta = fsub max_v min_v
      in fdiv offset delta)"

section \<open>gnipMath: cRange\<close>

text \<open>
  A \<^verbatim>\<open>cRange\<close> object has the attribute \<^verbatim>\<open>_isInitialized\<close> from its constructor on;
  \<^verbatim>\<open>_lo\<close> and \<^verbatim>\<open>_hi\<close> exist only once \<^verbatim>\<open>Include\<close> has assigned them, so they are
  optional here. The values included are floats.
\<close>

record cRange =
  isInitialized :: bool
  lo_attr :: "pyfloat option"
  hi_attr :: "pyfloat option"

definition cRange_empty :: cRange where
  "cRange_empty = \<lparr>isInitialized = False, lo_attr = None, hi_attr = None\<rparr>"

text \<open>\<^verbatim>\<open>val > self._hi\<close> is \<^verbatim>\<open>self._hi < val\<close>.\<close>

definition Include :: "pyfloat \<Rightarrow> cRange \<Rightarrow> error + cRange" where
  "Include val r =
     (if \<not> isInitialized r
      then Inr (r\<lparr>lo_attr := Some val, hi_attr := Some val, isInitialized := True\<rparr>)
      else
        (case lo_attr r of
           None \<Rightarrow> Inl AttributeError
         | Some l \<Rightarrow>
             (let r1 = (if flt val l then r\<lparr>lo_attr := Some val\<rparr> else r)
              in (case hi_attr r1 of
                    None \<Rightarrow> Inl AttributeError
                  | Some h \<Rightarrow> Inr (if flt h val then r1\<lparr>hi_attr := Some val\<rparr> else r1)))))"

text \<open>A sequence of \<^verbatim>\<open>Include\<close> calls on one object, in order.\<close>

fun Include_all :: "pyfloat list \<Rightarrow> cRange \<Rightarrow> error + cRange" where
  "Include_all [] r = Inr r"
| "Include_all (v # vs) r =
     (case Include v r of Inl e \<Rightarrow> Inl e | Inr r' \<Rightarrow> Include_all vs r')"

text \<open>\<^verbatim>\<open>cRange(lo, hi)\<close>: both arguments default to \<^verbatim>\<open>None\<close>.\<close>

definition cRange_init :: "pyfloat option \<Rightarrow> pyfloat option \<Rightarrow> error + cRange" where
  "cRange_init lo hi =
     (if lo = None \<and> hi = None then Inr cRange_empty
      else (case (lo, hi) of
              (Some l, Some h) \<Rightarrow> Include_all [l, h] cRange_empty
            | _ \<Rightarrow> Inl AssertionError))"

text \<open>
  \<^verbatim>\<open>__getattr__\<close> runs for every attribute that is not found in the usual places:
  always for \<^verbatim>\<open>lo\<close> and \<^verbatim>\<open>hi\<close>, which \<^verbatim>\<open>__setattr__\<close> refuses to store.
\<close>

definition cRange_getattr :: "cRange \<Rightarrow> string \<Rightarrow> error + pyfloat" where
  "cRange_getattr r name =
     (if \<not> isInitialized r then Inl AssertionError
      else if name = ''lo'' then (case lo_attr r of Some v \<Rightarrow> Inr v | None \<Rightarrow> Inl AttributeError)
      else if name = ''hi'' then (case hi_attr r of Some v \<Rightarrow> Inr v | None \<Rightarrow> Inl AttributeError)
      else Inl AttributeError)"

definition Span :: "cRange \<Rightarrow> error + pyfloat" where
  "Span r =
     (if \<not> isInitialized r then Inl AssertionError
      else (case (hi_attr r, lo_attr r) of
              (Some h, Some l) \<Rightarrow> Inr (fsub h l)
            | _ \<Rightarrow> Inl AttributeError))"

definition Mid :: "cRange \<Rightarrow> error + pyfloat" where
  "Mid r =
     (if \<not> isInitialized r then Inl AssertionError
      else (case (lo_attr r, hi_attr r) of
              (Some l, Some h) \<Rightarrow> fdiv (fadd l h) (Finite 2)
            | _ \<Rightarrow> Inl AttributeError))"

section \<open>The random source\<close>

text \<open>
  The module-level generator of \<^verbatim>\<open>random\<close> is a stream of the values that
  \<^verbatim>\<open>random.random()\<close> returns, finite floats in the half-open interval from 0 to 1, and
  a cursor into it. Python 2.7 defines \<^verbatim>\<open>uniform(a, b)\<close> as
  \<^verbatim>\<open>a + (b-a) * self.random()\<close> and \<^verbatim>\<open>choice(seq)\<close> as
  \<^verbatim>\<open>seq[int(self.random() * len(seq))]\<close>, which raises \<^verbatim>\<open>IndexError\<close> on an empty
  sequence.
\<close>

record rng =
  samples :: "nat \<Rightarrow> real"
  cursor :: nat

definition random_random :: "rng \<Rightarrow> pyfloat \<times> rng" where
  "random_random g = (Finite (samples g (cursor g)), g\<lparr>cursor := cursor g + 1\<rparr>)"

definition random_uniform :: "pyfloat \<Rightarrow> pyfloat \<Rightarrow> rng \<Rightarrow> pyfloat \<times> rng" where
  "random_uniform a b g = (let (u, g') = random_random g in (fadd a (fmul (fsub b a) u), g'))"

definition random_choice :: "'a list \<Rightarrow> rng \<Rightarrow> error + ('a \<times> rng)" where
  "random_choice seq g =
     (let (u, g') = random_random g
      in case float_of_int (int (length seq)) of
           Inl e \<Rightarrow> Inl e
         | Inr n \<Rightarrow>
             (case py_int (fmul u n) of
                Inl e \<Rightarrow> Inl e
              | Inr i \<Rightarrow>
                  if 0 \<le> i \<and> i < int (length seq) then Inr (seq ! nat i, g')
                  else Inl IndexError))"

section \<open>gnipMath: cVector2\<close>

record cVector2 =
  vx :: pyfloat
  vy :: pyfloat

definition vadd :: "cVector2 \<Rightarrow> cVector2 \<Rightarrow> cVector2" where
  "vadd a b = \<lparr>vx = fadd (vx a) (vx b), vy = fadd (vy a) (vy b)\<rparr>"

definition vsub :: "cVector2 \<Rightarrow> cVector2 \<Rightarrow> cVector2" where
  "vsub a b = \<lparr>vx = fsub (vx a) (vx b), vy = fsub (vy a) (vy b)\<rparr>"

definition vneg :: "cVector2 \<Rightarrow> cVector2" where
  "vneg a = \<lparr>vx = fneg (vx a), vy = fneg (vy a)\<rparr>"

text \<open>
  \<^verbatim>\<open>__mul__\<close> is \<^verbatim>\<open>cVector2(rhs * self.x, rhs * self.y)\<close>; the scalar is a float in this
  model, so its assertion holds.
\<close>

definition vmul :: "cVector2 \<Rightarrow> pyfloat \<Rightarrow> cVector2" where
  "vmul a k = \<lparr>vx = fmul k (vx a), vy = fmul k (vy a)\<rparr>"

section \<open>gnpparticle: emit rate policies\<close>

text \<open>
  One constructor per class, its arguments the attributes of the object:
  \<^verbatim>\<open>_num_particles\<close> and \<^verbatim>\<open>_is_complete\<close> for a burst; \<^verbatim>\<open>_delta_carryover\<close> first for
  the subclasses of \<^verbatim>\<open>EmitterRate_DelayBase\<close>, then \<^verbatim>\<open>_emitDelay\<close>, or \<^verbatim>\<open>_lo\<close> and
  \<^verbatim>\<open>_hi\<close>, and \<^verbatim>\<open>_emitter_lifetime_remaining\<close> last.
\<close>

datatype EmitterRate =
    EmitterRate_Burst int bool
  | EmitterRate_DelayConstant pyfloat pyfloat
  | EmitterRate_DelayRange pyfloat pyfloat pyfloat
  | EmitterRate_DelayRangeWithLifetime pyfloat pyfloat pyfloat pyfloat

definition Burst_init :: "int \<Rightarrow> EmitterRate" where
  "Burst_init num_particles = EmitterRate_Burst num_particles False"


definition DelayRange_init :: "pyfloat \<Rightarrow> pyfloat \<Rightarrow> EmitterRate" where
  "DelayRange_init range_lo range_hi = EmitterRate_DelayRange (Finite 0) range_lo range_hi"

definition DelayRangeWithLifetime_init :: "pyfloat \<Rightarrow> pyfloat \<Rightarrow> pyfloat \<Rightarrow> EmitterRate" where
  "DelayRangeWithLifetime_init range_lo range_hi emitter_lifetime =
     EmitterRate_DelayRangeWithLifetime (Finite 0) range_lo range_hi emitter_lifetime"

text \<open>
  The body of \<^verbatim>\<open>EmitterRate_DelayBase.how_many\<close>, given the carryover and the delay that
  \<^verbatim>\<open>_get_delay\<close> returned; the result is the count and the new carryover. Each line of
  the source is one or two float operations: the sum, the quotient and its truncation by
  \<^verbatim>\<open>int\<close>, then the conversion of the count, the product and the difference.
\<close>

definition DelayBase_how_many :: "pyfloat \<Rightarrow> pyfloat \<Rightarrow> pyfloat \<Rightarrow> error + (int \<times> pyfloat)" where
  "DelayBase_how_many delta_time delta_carryover emit_delay =
     (let total_time = fadd delta_time delta_carryover
      in case fdiv total_time emit_delay of
           Inl e \<Rightarrow> Inl e
         | Inr ratio \<Rightarrow>
             (case py_int ratio of
                Inl e \<Rightarrow> Inl e
              | Inr emit_count \<Rightarrow>
                  (case float_of_int emit_count of
                     Inl e \<Rightarrow> Inl e
                   | Inr c \<Rightarrow> Inr (emit_count, fsub total_time (fmul c emit_delay)))))"

fun how_many :: "pyfloat \<Rightarrow> EmitterRate \<Rightarrow> rng \<Rightarrow> error + (int \<times> EmitterRate \<times> rng)" where
  "how_many delta_time (EmitterRate_Burst n c) g = Inr (n, EmitterRate_Burst n True, g)"
| "how_many delta_time (EmitterRate_DelayConstant carry d) g =
     (case DelayBase_how_many delta_time carry d of
        Inl e \<Rightarrow> Inl e
      | Inr (k, carry') \<Rightarrow> Inr (k, EmitterRate_DelayConstant carry' d, g))"
| "how_many delta_time (EmitterRate_DelayRange carry lo hi) g =
     (let (d, g') = random_uniform lo hi g
      in case DelayBase_how_many delta_time carry d of
           Inl e \<Rightarrow> Inl e
         | Inr (k, carry') \<Rightarrow> Inr (k, EmitterRate_DelayRange carry' lo hi, g'))"
| "how_many delta_time (EmitterRate_DelayRangeWithLifetime carry lo hi remaining) g =
     (let remaining' = fsub remaining delta_time;
          (d, g') = random_uniform lo hi g
      in case DelayBase_how_many delta_time carry d of
           Inl e \<Rightarrow> Inl e
         | Inr (k, carry') \<Rightarrow>
             Inr (k, EmitterRate_DelayRangeWithLifetime carry' lo hi remaining', g'))"

fun is_complete :: "EmitterRate \<Rightarrow> bool" where
  "is_complete (EmitterRate_Burst n c) = c"
| "is_complete (EmitterRate_DelayConstant carry d) = False"
| "is_complete (EmitterRate_DelayRange carry lo hi) = False"
| "is_complete (EmitterRate_DelayRangeWithLifetime carry lo hi remaining) =
     fle remaining (Finite 0)"



section \<open>gnpparticle: speed, direction, lifetime and colour policies\<close>

datatype EmitterSpeed =
    EmitterSpeed_Constant pyfloat
  | EmitterSpeed_Range pyfloat pyfloat

fun get_speed :: "EmitterSpeed \<Rightarrow> rng \<Rightarrow> pyfloat \<times> rng" where
  "get_speed (EmitterSpeed_Constant speed) g = (speed, g)"
| "get_speed (EmitterSpeed_Range lo hi) g = random_uniform lo hi g"

text \<open>
  \<^verbatim>\<open>EmitterDirection_Constant\<close> holds \<^verbatim>\<open>_dir\<close>, the vector its constructor normalised.
  \<^verbatim>\<open>EmitterDirection_360\<close> and \<^verbatim>\<open>EmitterDirection_AngleWithSpread\<close> go through
  \<^verbatim>\<open>math.cos\<close> and \<^verbatim>\<open>math.sin\<close>, whose results the language does not fix to the last
  bit: they are \<open>EmitterDirection_other\<close>, any function of the generator.
\<close>

datatype EmitterDirection =
    EmitterDirection_Constant cVector2
  | EmitterDirection_other "rng \<Rightarrow> error + (cVector2 \<times> rng)"

fun get_direction :: "EmitterDirection \<Rightarrow> rng \<Rightarrow> error + (cVector2 \<times> rng)" where
  "get_direction (EmitterDirection_Constant d) g = Inr (d, g)"
| "get_direction (EmitterDirection_other f) g = f g"

datatype EmitterLifetime =
    EmitterLifetime_Constant pyfloat
  | EmitterLifetime_Range pyfloat pyfloat

fun get_lifetime :: "EmitterLifetime \<Rightarrow> rng \<Rightarrow> pyfloat \<times> rng" where
  "get_lifetime (EmitterLifetime_Constant lifetime) g = (lifetime, g)"
| "get_lifetime (EmitterLifetime_Range lo hi) g = random_uniform lo hi g"

text \<open>
  The values a caller can pass where a colour is expected: the constructor of
  \<^verbatim>\<open>EmitterColor_Choice\<close> tells tuples and \<^verbatim>\<open>pygame.Color\<close> objects from everything else.
\<close>

datatype pyval =
    PyNone
  | PyInt int
  | PyFloat pyfloat
  | PyStr string
  | PyList "pyval list"
  | PyTuple "pyval list"
  | PyColor int int int int

fun is_tuple :: "pyval \<Rightarrow> bool" where
  "is_tuple (PyTuple xs) = True"
| "is_tuple v = False"

fun is_tuple_or_Color :: "pyval \<Rightarrow> bool" where
  "is_tuple_or_Color (PyTuple xs) = True"
| "is_tuple_or_Color (PyColor r g b a) = True"
| "is_tuple_or_Color v = False"

datatype EmitterColor =
    EmitterColor_Constant pyval
  | EmitterColor_Choice "pyval list"

text \<open>
  \<^verbatim>\<open>EmitterColor_Choice.__init__\<close>: the argument must be a tuple, and each of its items a
  tuple or a \<^verbatim>\<open>pygame.Color\<close>; then \<^verbatim>\<open>self.colorChoices = color_choices\<close>.
\<close>

definition EmitterColor_Choice_init :: "pyval \<Rightarrow> error + EmitterColor" where
  "EmitterColor_Choice_init color_choices =
     (case color_choices of
        PyTuple items \<Rightarrow>
          (if list_all is_tuple_or_Color items then Inr (EmitterColor_Choice items)
           else Inl AssertionError)
      | _ \<Rightarrow> Inl AssertionError)"

fun get_color :: "EmitterColor \<Rightarrow> rng \<Rightarrow> error + (pyval \<times> rng)" where
  "get_color (EmitterColor_Constant c) g = Inr (c, g)"
| "get_color (EmitterColor_Choice colorChoices) g = random_choice colorChoices g"

section \<open>gnpparticle: fields\<close>

text \<open>
  A field has one method, \<^verbatim>\<open>get_accel_vector(position, cur_vel)\<close>, and no state that
  the method changes. \<^verbatim>\<open>EmitterField_TrubulenceHACK\<close> and \<^verbatim>\<open>EmitterField_PointAttract\<close>
  go through \<^verbatim>\<open>math.cos\<close>, \<^verbatim>\<open>math.sin\<close> and \<^verbatim>\<open>math.sqrt\<close>: they are
  \<open>EmitterField_other\<close>, any function of the position, the velocity and the generator,
  which may raise.
\<close>

datatype EmitterField =
    cEmitterField_Constant cVector2
  | EmitterField_Drag pyfloat
  | EmitterField_other "cVector2 \<Rightarrow> cVector2 \<Rightarrow> rng \<Rightarrow> error + (cVector2 \<times> rng)"

fun get_accel_vector ::
  "EmitterField \<Rightarrow> cVector2 \<Rightarrow> cVector2 \<Rightarrow> rng \<Rightarrow> error + (cVector2 \<times> rng)" where
  "get_accel_vector (cEmitterField_Constant accel_vect) pos cur_vel g = Inr (accel_vect, g)"
| "get_accel_vector (EmitterField_Drag percent_per_second) pos cur_vel g =
     Inr (vneg (vmul cur_vel percent_per_second), g)"
| "get_accel_vector (EmitterField_other f) pos cur_vel g = f pos cur_vel g"

section \<open>gnpparticle: Particle\<close>

record Particle =
  p_position :: cVector2
  p_velocity :: cVector2
  p_lifetime_remaining :: pyfloat
  p_color :: pyval
  p_size :: int

definition Particle_can_reap :: "Particle \<Rightarrow> bool" where
  "Particle_can_reap p = fle (p_lifetime_remaining p) (Finite 0)"

definition Particle_step :: "pyfloat \<Rightarrow> Particle \<Rightarrow> error + Particle" where
  "Particle_step time_delta p =
     (if Particle_can_reap p then Inl AssertionError
      else (let p1 = p\<lparr>p_position := vadd (p_position p) (vmul (p_velocity p) time_delta)\<rparr>;
                p2 = p1\<lparr>p_lifetime_remaining := fsub (p_lifetime_remaining p1) time_delta\<rparr>
            in Inr (if flt (p_lifetime_remaining p2) (Finite 0)
                    then p2\<lparr>p_lifetime_remaining := Finite 0\<rparr> else p2)))"

section \<open>gnppygame: ActorList\<close>

text \<open>
  An \<^verbatim>\<open>ActorList\<close> is a Python list of references to mutable objects, and
  \<^verbatim>\<open>list.remove\<close> finds an actor by identity (none of the actor classes defines
  equality). So the list is a list of references, and a heap maps each reference to the
  state of its object. The methods of the actors are parameters. The \<^verbatim>\<open>step\<close> of an
  actor gets its own reference and the whole heap, and returns the heap it leaves: it may
  change every object, as a call of another actor's \<^verbatim>\<open>reap()\<close> does. It does not
  change the list itself.
\<close>

type_synonym ref = nat

text \<open>\<^verbatim>\<open>list.remove(x)\<close> removes the first occurrence, and raises when there is none.\<close>

definition list_remove :: "ref \<Rightarrow> ref list \<Rightarrow> error + ref list" where
  "list_remove r rs = (if r \<in> set rs then Inr (remove1 r rs) else Inl ValueError)"

text \<open>
  The first loop of \<^verbatim>\<open>ActorList.step\<close>, over the references still to visit: the heap
  and \<^verbatim>\<open>actors_to_delete\<close> so far go in, and come out updated. \<^verbatim>\<open>can_reap()\<close> is read
  right after the step of the actor, on the heap that step left.
\<close>

fun step_actors ::
  "('t \<Rightarrow> ref \<Rightarrow> (ref \<Rightarrow> 'a) \<Rightarrow> error + (ref \<Rightarrow> 'a)) \<Rightarrow> ('a \<Rightarrow> bool) \<Rightarrow> 't \<Rightarrow> ref list
     \<Rightarrow> (ref \<Rightarrow> 'a) \<Rightarrow> ref list \<Rightarrow> error + ((ref \<Rightarrow> 'a) \<times> ref list)" where
  "step_actors astep acan_reap time_delta [] h actors_to_delete = Inr (h, actors_to_delete)"
| "step_actors astep acan_reap time_delta (actor # rest) h actors_to_delete =
     (case astep time_delta actor h of
        Inl e \<Rightarrow> Inl e
      | Inr h1 \<Rightarrow>
          step_actors astep acan_reap time_delta rest h1
            (if acan_reap (h1 actor) then actors_to_delete @ [actor] else actors_to_delete))"

text \<open>The second loop: \<^verbatim>\<open>self.remove(actor_to_del)\<close> for each collected actor.\<close>

fun remove_actors :: "ref list \<Rightarrow> ref list \<Rightarrow> error + ref list" where
  "remove_actors [] self = Inr self"
| "remove_actors (actor_to_del # rest) self =
     (case list_remove actor_to_del self of
        Inl e \<Rightarrow> Inl e
      | Inr self' \<Rightarrow> remove_actors rest self')"

definition ActorList_step ::
  "('t \<Rightarrow> ref \<Rightarrow> (ref \<Rightarrow> 'a) \<Rightarrow> error + (ref \<Rightarrow> 'a)) \<Rightarrow> ('a \<Rightarrow> bool) \<Rightarrow> 't \<Rightarrow> ref list
     \<Rightarrow> (ref \<Rightarrow> 'a) \<Rightarrow> error + (ref list \<times> (ref \<Rightarrow> 'a))" where
  "ActorList_step astep acan_reap time_delta self h =
     (case step_actors astep acan_reap time_delta self h [] of
        Inl e \<Rightarrow> Inl e
      | Inr (h', actors_to_delete) \<Rightarrow>
          (case remove_actors actors_to_delete self of
             Inl e \<Rightarrow> Inl e
           | Inr self' \<Rightarrow> Inr (self', h')))"

text \<open>
  \<^verbatim>\<open>ActorList.draw\<close>. The draw method of an actor gets the reference of its object
  besides the state, as \<^verbatim>\<open>self\<close> is both in Python.
\<close>

fun ActorList_draw ::
  "(ref \<Rightarrow> 'a \<Rightarrow> 's \<Rightarrow> error + 's) \<Rightarrow> ref list \<Rightarrow> (ref \<Rightarrow> 'a) \<Rightarrow> 's \<Rightarrow> error + 's" where
  "ActorList_draw adraw [] h surface = Inr surface"
| "ActorList_draw adraw (actor # rest) h surface =
     (case adraw actor (h actor) surface of
        Inl e \<Rightarrow> Inl e
      | Inr surface' \<Rightarrow> ActorList_draw adraw rest h surface')"

text \<open>
  The \<^verbatim>\<open>step\<close> of an actor that reads and writes its own object only, as that of a
  \<^verbatim>\<open>Particle\<close> does: the method on the state becomes a step on the heap.
\<close>

definition own_step ::
  "('t \<Rightarrow> 'a \<Rightarrow> error + 'a) \<Rightarrow> 't \<Rightarrow> ref \<Rightarrow> (ref \<Rightarrow> 'a) \<Rightarrow> error + (ref \<Rightarrow> 'a)" where
  "own_step method time_delta r h =
     (case method time_delta (h r) of Inl e \<Rightarrow> Inl e | Inr a \<Rightarrow> Inr (h(r := a)))"

text \<open>
  An actor whose \<^verbatim>\<open>draw\<close> does nothing but leave its identity on the surface, so that the
  surface after \<^verbatim>\<open>ActorList.draw\<close> lists the actors drawn, in order.
\<close>

definition record_draw :: "ref \<Rightarrow> 'a \<Rightarrow> ref list \<Rightarrow> error + ref list" where
  "record_draw r a surface = Inr (surface @ [r])"

section \<open>gnpparticle: Emitter\<close>

text \<open>
  \<^verbatim>\<open>_particles\<close> is the emitter's \<^verbatim>\<open>ActorList\<close>; \<^verbatim>\<open>_field_obj\<close> is \<^verbatim>\<open>None\<close> by
  default, and a field object is true in \<^verbatim>\<open>if self._field_obj:\<close>.
\<close>

record Emitter =
  e_position :: cVector2
  e_particles :: "ref list"
  e_rate_obj :: EmitterRate
  e_speed_obj :: EmitterSpeed
  e_direction_obj :: EmitterDirection
  e_lifetime_obj :: EmitterLifetime
  e_color_obj :: EmitterColor
  e_start_size :: int
  e_field_obj :: "EmitterField option"
  e_can_emit :: bool

text \<open>
  What an emitter works on besides its own attributes: the particle objects, the next
  unused reference (a new \<^verbatim>\<open>Particle\<close> gets it), and the random generator.
\<close>

record world =
  heap :: "ref \<Rightarrow> Particle"
  next_ref :: ref
  gen :: rng

definition Emitter_init ::
  "cVector2 \<Rightarrow> EmitterRate \<Rightarrow> EmitterSpeed \<Rightarrow> EmitterDirection \<Rightarrow> EmitterLifetime \<Rightarrow> EmitterColor
     \<Rightarrow> int \<Rightarrow> EmitterField option \<Rightarrow> Emitter" where
  "Emitter_init position rate_obj speed_obj direction_obj lifetime_obj color_obj sz field_obj =
     \<lparr>e_position = position, e_particles = [], e_rate_obj = rate_obj, e_speed_obj = speed_obj,
      e_direction_obj = direction_obj, e_lifetime_obj = lifetime_obj, e_color_obj = color_obj,
      e_start_size = sz, e_field_obj = field_obj, e_can_emit = True\<rparr>"

definition set_position :: "cVector2 \<Rightarrow> Emitter \<Rightarrow> Emitter" where
  "set_position pos em = em\<lparr>e_position := pos\<rparr>"


definition stop :: "Emitter \<Rightarrow> Emitter" where
  "stop em = em\<lparr>e_can_emit := False\<rparr>"

definition Emitter_can_reap :: "Emitter \<Rightarrow> bool" where
  "Emitter_can_reap em =
     (let pending_particles = (length (e_particles em) \<noteq> 0)
      in \<not> pending_particles \<and> is_complete (e_rate_obj em))"

text \<open>
  One round of the loop of \<^verbatim>\<open>_emit\<close>: the particle it builds, from the four policies
  in the order of the source, and the generator after it.
\<close>

definition new_particle :: "Emitter \<Rightarrow> rng \<Rightarrow> error + (Particle \<times> rng)" where
  "new_particle em g =
     (let (speed, g1) = get_speed (e_speed_obj em) g
      in case get_direction (e_direction_obj em) g1 of
           Inl e \<Rightarrow> Inl e
         | Inr (dir, g2) \<Rightarrow>
             (let velocity = vmul dir speed;
                  (lifetime, g3) = get_lifetime (e_lifetime_obj em) g2
              in case get_color (e_color_obj em) g3 of
                   Inl e \<Rightarrow> Inl e
                 | Inr (color, g4) \<Rightarrow>
                     Inr (\<lparr>p_position = e_position em, p_velocity = velocity,
                           p_lifetime_remaining = lifetime, p_color = color,
                           p_size = e_start_size em\<rparr>, g4)))"

text \<open>The loop of \<^verbatim>\<open>_emit\<close>, with the number of rounds still to run.\<close>

fun emit_particles :: "nat \<Rightarrow> Emitter \<Rightarrow> world \<Rightarrow> error + (Emitter \<times> world)" where
  "emit_particles 0 em w = Inr (em, w)"
| "emit_particles (Suc n) em w =
     (case new_particle em (gen w) of
        Inl e \<Rightarrow> Inl e
      | Inr (p, g') \<Rightarrow>
          (let r = next_ref w
           in emit_particles n (em\<lparr>e_particles := e_particles em @ [r]\<rparr>)
                (w\<lparr>heap := (heap w)(r := p), next_ref := Suc r, gen := g'\<rparr>)))"

text \<open>\<^verbatim>\<open>range(k)\<close> is empty for a count that is not positive.\<close>

definition Emitter_emit :: "pyfloat \<Rightarrow> Emitter \<Rightarrow> world \<Rightarrow> error + (Emitter \<times> world)" where
  "Emitter_emit time_delta em w =
     (if \<not> is_complete (e_rate_obj em)
      then (case how_many time_delta (e_rate_obj em) (gen w) of
              Inl e \<Rightarrow> Inl e
            | Inr (k, rate', g') \<Rightarrow>
                emit_particles (nat k) (em\<lparr>e_rate_obj := rate'\<rparr>) (w\<lparr>gen := g'\<rparr>))
      else Inr (em, w))"

text \<open>
  The field loop of \<^verbatim>\<open>Emitter.step\<close>:
  \<^verbatim>\<open>p._velocity += field.get_accel_vector(p._position, p._velocity) * time_delta\<close>,
  where \<^verbatim>\<open>+=\<close> builds a new vector since \<^verbatim>\<open>cVector2\<close> has no \<^verbatim>\<open>__iadd__\<close>.
\<close>

fun apply_field :: "EmitterField \<Rightarrow> pyfloat \<Rightarrow> ref list \<Rightarrow> world \<Rightarrow> error + world" where
  "apply_field f time_delta [] w = Inr w"
| "apply_field f time_delta (p # rest) w =
     (case get_accel_vector f (p_position (heap w p)) (p_velocity (heap w p)) (gen w) of
        Inl e \<Rightarrow> Inl e
      | Inr (accel, g') \<Rightarrow>
          apply_field f time_delta rest
            (w\<lparr>heap := (heap w)(p := (heap w p)
                   \<lparr>p_velocity := vadd (p_velocity (heap w p)) (vmul accel time_delta)\<rparr>),
               gen := g'\<rparr>))"

definition Emitter_step :: "pyfloat \<Rightarrow> Emitter \<Rightarrow> world \<Rightarrow> error + (Emitter \<times> world)" where
  "Emitter_step time_delta em w =
     (if Emitter_can_reap em then Inl AssertionError
      else
        (case (if e_can_emit em then Emitter_emit time_delta em w else Inr (em, w)) of
           Inl e \<Rightarrow> Inl e
         | Inr (em1, w1) \<Rightarrow>
             (case (case e_field_obj em1 of
                      None \<Rightarrow> Inr w1
                    | Some f \<Rightarrow> apply_field f time_delta (e_particles em1) w1) of
                Inl e \<Rightarrow> Inl e
              | Inr w2 \<Rightarrow>
                  (case ActorList_step (own_step Particle_step) Particle_can_reap time_delta
                          (e_particles em1) (heap w2) of
                     Inl e \<Rightarrow> Inl e
                   | Inr (particles', h') \<Rightarrow>
                       Inr (em1\<lparr>e_particles := particles'\<rparr>, w2\<lparr>heap := h'\<rparr>)))))"

text \<open>
  What holds of an emitter between calls: its list holds each particle once, and every
  particle in it was allocated before. \<^verbatim>\<open>Emitter.__init__\<close> starts from the empty list and
  only \<^verbatim>\<open>_emit\<close> appends, a new object each time.
\<close>

definition Emitter_inv :: "Emitter \<Rightarrow> world \<Rightarrow> bool" where
  "Emitter_inv em w =
     (distinct (e_particles em) \<and> list_all (\<lambda>r. r < next_ref w) (e_particles em))"

text \<open>
  Example data: a white point particle at rest at the origin with one second to live, and
  a heap that holds it at every reference but 2, where the particle has two seconds.
\<close>

definition example_particle :: Particle where
  "example_particle =
     \<lparr>p_position = \<lparr>vx = Finite 0, vy = Finite 0\<rparr>, p_velocity = \<lparr>vx = Finite 0, vy = Finite 0\<rparr>,
      p_lifetime_remaining = Finite 1, p_color = PyTuple [PyInt 255, PyInt 255, PyInt 255],
      p_size = 0\<rparr>"

definition example_heap :: "ref \<Rightarrow> Particle" where
  "example_heap r =
     (if r = 2 then example_particle\<lparr>p_lifetime_remaining := Finite 2\<rparr> else example_particle)"

text \<open>
  An emitter at the origin that holds the particle at reference 2, with constant policies
  and a constant field along the first axis; its burst is over, so it emits nothing. The
  second emitter has the same policies, no particle yet and a burst of one to come. In
  the world, the references below 3 are taken.
\<close>

definition example_emitter :: Emitter where
  "example_emitter =
     \<lparr>e_position = \<lparr>vx = Finite 0, vy = Finite 0\<rparr>, e_particles = [2],
      e_rate_obj = EmitterRate_Burst 0 True,
      e_speed_obj = EmitterSpeed_Constant (Finite 1),
      e_direction_obj = EmitterDirection_Constant \<lparr>vx = Finite 1, vy = Finite 0\<rparr>,
      e_lifetime_obj = EmitterLifetime_Constant (Finite 2),
      e_color_obj = EmitterColor_Constant (PyTuple [PyInt 255, PyInt 255, PyInt 255]),
      e_start_size = 0,
      e_field_obj = Some (cEmitterField_Constant \<lparr>vx = Finite 1, vy = Finite 0\<rparr>),
      e_can_emit = True\<rparr>"

definition example_burst_emitter :: Emitter where
  "example_burst_emitter = example_emitter\<lparr>e_particles := [], e_rate_obj := Burst_init 1\<rparr>"

definition example_world :: world where
  "example_world =
     \<lparr>heap = example_heap, next_ref = 3, gen = \<lparr>samples = (\<lambda>n. 0), cursor = 0\<rparr>\<rparr>"

section \<open>Facts about the float operations\<close>

lemma round_half_even_of_int: "round_half_even (of_int n) = n"
  by (simp add: round_half_even_def)

lemma round_half_even_cases:
  "round_half_even z = \<lfloor>z\<rfloor> \<or> round_half_even z = \<lfloor>z\<rfloor> + 1"
  by (simp add: round_half_even_def Let_def)

lemma round_half_even_nonzero:
  assumes "1 \<le> \<bar>z\<bar>"
  shows "round_half_even z \<noteq> 0"
proof (cases "1 \<le> z")
  case True
  then have "1 \<le> \<lfloor>z\<rfloor>" by (simp add: le_floor_iff)
  with round_half_even_cases [of z] show ?thesis by linarith
next
  case False
  with assms have z: "z \<le> - 1" by linarith
  then have f: "\<lfloor>z\<rfloor> \<le> - 1" by (simp add: floor_le_iff)
  show ?thesis
  proof (cases "\<lfloor>z\<rfloor> = - 1")
    case True
    have "of_int \<lfloor>z\<rfloor> \<le> z" by (rule of_int_floor_le)
    with True have "- 1 \<le> z" by simp
    with z have "z = - 1" by simp
    with True have d: "z - of_int \<lfloor>z\<rfloor> = 0" by simp
    have "round_half_even z = \<lfloor>z\<rfloor>"
      unfolding round_half_even_def Let_def d by simp
    with True show ?thesis by simp
  next
    case False
    with f have "\<lfloor>z\<rfloor> \<le> - 2" by linarith
    with round_half_even_cases [of z] show ?thesis by linarith
  qed
qed

lemma double_exponent_le:
  assumes "x \<noteq> 0" "\<bar>x\<bar> < 2 powi (53 + k)" "- 1074 \<le> k"
  shows "double_exponent x \<le> k"
proof -
  have "(2::real) powr (real_of_int (53 + k)) = 2 powi (53 + k)"
    by (rule powr_real_of_int') simp_all
  with assms(2) have "\<bar>x\<bar> < 2 powr (real_of_int (53 + k))"
    by (simp only:)
  moreover have "(1::real) < 2" "0 < \<bar>x\<bar>"
    using assms(1) by simp_all
  ultimately have "log 2 \<bar>x\<bar> < real_of_int (53 + k)"
    using log_less_iff [of 2 "\<bar>x\<bar>" "real_of_int (53 + k)"] by blast
  then have "\<lfloor>log 2 \<bar>x\<bar>\<rfloor> < 53 + k"
    by (simp only: floor_less_iff)
  with assms(3) show ?thesis
    by (simp add: double_exponent_def)
qed


lemma round_double_exact:
  assumes x: "x = of_int m * 2 powi k" and m: "\<bar>m\<bar> < 2 ^ 53" and k: "- 1074 \<le> k" "k \<le> 971"
  shows "round_double x = Finite x"
proof (cases "x = 0")
  case True
  then show ?thesis by (simp add: round_double_def)
next
  case False
  have abs: "\<bar>x\<bar> = of_int \<bar>m\<bar> * 2 powi k"
    unfolding x by (simp add: abs_mult)
  have "of_int \<bar>m\<bar> < (2::real) ^ 53"
    using m by (metis of_int_less_iff of_int_numeral of_int_power)
  then have "\<bar>x\<bar> < 2 ^ 53 * 2 powi k"
    unfolding abs by (simp add: mult_strict_right_mono)
  also have "\<dots> = 2 powi (53 + k)"
    by (simp add: power_int_add)
  finally have bound: "\<bar>x\<bar> < 2 powi (53 + k)" .
  define e where "e = double_exponent x"
  define u :: real where "u = 2 powi e"
  have e: "e \<le> k"
    unfolding e_def using False bound k(1) by (rule double_exponent_le)
  have u: "u \<noteq> 0"
    by (simp add: u_def)
  have "(2::real) powi k = 2 powi (k - e) * 2 powi e"
    by (simp add: power_int_add [symmetric])
  also have "(2::real) powi (k - e) = 2 ^ nat (k - e)"
    using e by (simp add: power_int_def)
  finally have split: "(2::real) powi k = 2 ^ nat (k - e) * u"
    by (simp only: u_def)
  have "x = of_int m * (2 ^ nat (k - e) * u)"
    using x split by (simp only:)
  then have xu: "x = of_int (m * 2 ^ nat (k - e)) * u"
    by simp
  then have quot: "x / u = of_int (m * 2 ^ nat (k - e))"
    using u by simp
  have "of_int (round_half_even (x / u)) * u = x"
    unfolding quot round_half_even_of_int using xu by (rule sym)
  then have y: "of_int (round_half_even (x / 2 powi double_exponent x)) * 2 powi double_exponent x = x"
    by (simp only: u_def e_def)
  have "(2::real) powi (53 + k) \<le> 2 powi 1024"
    using k(2) by (intro power_int_increasing) simp_all
  with bound have "\<bar>x\<bar> < 2 ^ 1024"
    by simp
  with False y show ?thesis
    by (simp add: round_double_def Let_def)
qed

lemma round_double_of_int:
  assumes "\<bar>n\<bar> < 2 ^ 53"
  shows "round_double (of_int n) = Finite (of_int n)"
  using round_double_exact [of "of_int n" n 0] assms by simp

text \<open>The doubles that the examples below compute with.\<close>

lemma round_double_0: "round_double 0 = Finite 0"
  by (simp add: round_double_def)

lemma round_double_small_ints:
  "round_double 1 = Finite 1" "round_double 2 = Finite 2" "round_double 3 = Finite 3"
  "round_double 4 = Finite 4" "round_double 8 = Finite 8" "round_double (- 1) = Finite (- 1)"
  using round_double_of_int [of 1] round_double_of_int [of 2] round_double_of_int [of 3]
    round_double_of_int [of 4] round_double_of_int [of 8] round_double_of_int [of "- 1"]
  by simp_all

lemma round_double_fractions:
  "round_double (1 / 2) = Finite (1 / 2)" "round_double (1 / 4) = Finite (1 / 4)"
  "round_double (1 / 8) = Finite (1 / 8)" "round_double (3 / 8) = Finite (3 / 8)"
  "round_double (3 / 4) = Finite (3 / 4)"
  "round_double (- (1 / 2)) = Finite (- (1 / 2))" "round_double (- (1 / 4)) = Finite (- (1 / 4))"
  "round_double (- (3 / 4)) = Finite (- (3 / 4))" "round_double (- (3 / 2)) = Finite (- (3 / 2))"
  using round_double_exact [of "1 / 2" 1 "- 1"] round_double_exact [of "1 / 4" 1 "- 2"]
    round_double_exact [of "1 / 8" 1 "- 3"] round_double_exact [of "3 / 8" 3 "- 3"]
    round_double_exact [of "3 / 4" 3 "- 2"]
    round_double_exact [of "- (1 / 2)" "- 1" "- 1"] round_double_exact [of "- (1 / 4)" "- 1" "- 2"]
    round_double_exact [of "- (3 / 4)" "- 3" "- 2"] round_double_exact [of "- (3 / 2)" "- 3" "- 1"]
  by (simp_all add: power_int_minus)

lemma is_double_multiple:
  assumes "is_double x"
  shows "\<exists>n::int. x = of_int n * 2 powi (- 1074)"
proof (cases "x = 0")
  case True
  then have "x = of_int 0 * 2 powi (- 1074)" by (simp only: of_int_0 mult_zero_left)
  then show ?thesis by (rule exI)
next
  case False
  define q :: int where "q = - 1074"
  define e where "e = double_exponent x"
  define r where "r = round_half_even (x / 2 powi e)"
  have e: "q \<le> e"
    by (simp add: e_def q_def double_exponent_def)
  have "round_double x = Finite x"
    using assms by (simp only: is_double_def)
  then have "(if (2::real) ^ 1024 \<le> \<bar>of_int r * 2 powi e\<bar> then (if 0 < x then PosInf else NegInf)
              else Finite (of_int r * 2 powi e)) = Finite x"
    using False by (simp only: round_double_def Let_def e_def r_def if_False)
  then have x: "x = of_int r * 2 powi e"
    by (simp split: if_splits)
  have "(2::real) powi (e - q + q) = 2 powi (e - q) * 2 powi q"
    by (rule power_int_add) simp
  moreover have "e - q + q = e" by simp
  moreover have "(2::real) powi (e - q) = 2 ^ nat (e - q)"
    using e by (simp add: power_int_def)
  ultimately have "(2::real) powi e = 2 ^ nat (e - q) * 2 powi q"
    by (simp only:)
  with x have "x = of_int r * (2 ^ nat (e - q) * 2 powi q)"
    by (simp only:)
  then have "x = of_int (r * 2 ^ nat (e - q)) * 2 powi q"
    by simp
  then have "\<exists>n::int. x = of_int n * 2 powi q"
    by (rule exI)
  then show ?thesis
    by (simp only: q_def)
qed

lemma round_double_nonzero:
  assumes "2 powi (- 1074) \<le> \<bar>x\<bar>"
  shows "round_double x \<noteq> Finite 0"
proof -
  define q :: int where "q = - 1074"
  have small: "2 powi q \<le> \<bar>x\<bar>"
    using assms by (simp only: q_def)
  have qpos: "(0::real) < 2 powi q"
    by (rule zero_less_power_int) simp
  with small have pos: "0 < \<bar>x\<bar>"
    by linarith
  then have x: "x \<noteq> 0" by simp
  define l where "l = \<lfloor>log 2 \<bar>x\<bar>\<rfloor> - 52"
  define e where "e = double_exponent x"
  define u :: real where "u = 2 powi e"
  have u: "0 < u"
    unfolding u_def by (rule zero_less_power_int) simp
  have "of_int \<lfloor>log 2 \<bar>x\<bar>\<rfloor> \<le> log 2 \<bar>x\<bar>"
    by (rule of_int_floor_le)
  moreover have "real_of_int l = of_int \<lfloor>log 2 \<bar>x\<bar>\<rfloor> - 52"
    by (simp add: l_def)
  ultimately have "real_of_int l \<le> log 2 \<bar>x\<bar>"
    by linarith
  then have "2 powr real_of_int l \<le> \<bar>x\<bar>"
    using pos le_log_iff [of 2 "\<bar>x\<bar>" "real_of_int l"] by simp
  moreover have "(2::real) powr real_of_int l = 2 powi l"
    by (rule powr_real_of_int') simp_all
  ultimately have big: "2 powi l \<le> \<bar>x\<bar>"
    by (simp only:)
  have "e = max l q"
    by (simp only: e_def double_exponent_def l_def q_def)
  then have "e = l \<or> e = q"
    by (simp add: max_def)
  with small big have "u \<le> \<bar>x\<bar>"
    unfolding u_def by blast
  then have "1 \<le> \<bar>x\<bar> / u"
    using u by simp
  then have "1 \<le> \<bar>x / u\<bar>"
    using u by simp
  then have "round_half_even (x / u) \<noteq> 0"
    by (rule round_half_even_nonzero)
  then have nz: "of_int (round_half_even (x / u)) * u \<noteq> 0"
    using u by simp
  have "round_double x =
          (if (2::real) ^ 1024 \<le> \<bar>of_int (round_half_even (x / u)) * u\<bar>
           then (if 0 < x then PosInf else NegInf)
           else Finite (of_int (round_half_even (x / u)) * u))"
    using x by (simp only: round_double_def Let_def u_def e_def if_False)
  with nz show ?thesis
    by (simp split: if_splits)
qed

lemma fsub_doubles_nonzero:
  assumes "is_double a" "is_double b" "a \<noteq> b"
  shows "fsub (Finite a) (Finite b) \<noteq> Finite 0"
proof -
  define q :: real where "q = 2 powi (- 1074)"
  have qpos: "0 < q"
    unfolding q_def by (rule zero_less_power_int) simp
  from is_double_multiple [OF assms(1)] obtain m :: int where a: "a = of_int m * q"
    unfolding q_def by blast
  from is_double_multiple [OF assms(2)] obtain n :: int where b: "b = of_int n * q"
    unfolding q_def by blast
  from assms(3) have "m \<noteq> n"
    using a b by auto
  then have "1 \<le> \<bar>m - n\<bar>" by simp
  then have one: "(1::real) \<le> of_int \<bar>m - n\<bar>"
    by (simp only: of_int_1_le_iff)
  have "a - b = of_int (m - n) * q"
    by (simp add: a b algebra_simps)
  then have "\<bar>a - b\<bar> = of_int \<bar>m - n\<bar> * q"
    using qpos by (simp add: abs_mult)
  moreover have "1 * q \<le> of_int \<bar>m - n\<bar> * q"
    using one qpos by (simp only: mult_le_cancel_right) simp
  ultimately have "q \<le> \<bar>a - b\<bar>"
    by simp
  then have "2 powi (- 1074) \<le> \<bar>a - b\<bar>"
    by (simp only: q_def)
  then have "round_double (a - b) \<noteq> Finite 0"
    by (rule round_double_nonzero)
  then show ?thesis
    by (simp add: fsub_def)
qed

lemma fdiv_nonzero:
  assumes "y \<noteq> Finite 0"
  shows "\<exists>q. fdiv x y = Inr q"
  using assms by (cases y; cases x) auto

lemma fle_refl: "x \<noteq> NaN \<Longrightarrow> fle x x"
  by (cases x) simp_all

lemma flt_imp_fle: "flt x y \<Longrightarrow> fle x y"
  by (cases x; cases y) simp_all

lemma not_flt_imp_fle: "x \<noteq> NaN \<Longrightarrow> y \<noteq> NaN \<Longrightarrow> \<not> flt x y \<Longrightarrow> fle y x"
  by (cases x; cases y) simp_all

lemma fle_trans: "fle x y \<Longrightarrow> fle y z \<Longrightarrow> fle x z"
  by (cases x; cases y; cases z) simp_all


section \<open>Rate policies: burst\<close>

text \<open>
  C5. For \<^verbatim>\<open>EmitterRate_Burst(n)\<close>, any \<open>n\<close> and any \<open>dt\<close>: \<^verbatim>\<open>is_complete()\<close> is false
  before any call of \<^verbatim>\<open>how_many\<close>, the first call returns \<open>n\<close>, and \<^verbatim>\<open>is_complete()\<close>
  is true after it.
\<close>

theorem Burst_completion:
  "\<not> is_complete (Burst_init n)
   \<and> how_many dt (Burst_init n) g = Inr (n, EmitterRate_Burst n True, g)
   \<and> is_complete (EmitterRate_Burst n True)"
  by (simp add: Burst_init_def)

section \<open>Emitter: the reap condition\<close>

text \<open>
  C4. In every state, \<^verbatim>\<open>Emitter.can_reap()\<close> is true exactly when the rate policy is
  complete and the particle collection is empty.
\<close>

theorem Emitter_can_reap_iff:
  "Emitter_can_reap em = (is_complete (e_rate_obj em) \<and> e_particles em = [])"
  by (auto simp add: Emitter_can_reap_def)

section \<open>InverseLerp\<close>

text \<open>
  C8, for finite floats. When \<open>lo\<close> and \<open>hi\<close> are equal, \<^verbatim>\<open>InverseLerp(val, lo, hi)\<close>
  raises \<^verbatim>\<open>ZeroDivisionError\<close>. When they are two different doubles it raises nothing
  and returns the quotient of \<open>val - lo\<close> by \<open>hi - lo\<close>, each of the three operations done
  in double arithmetic; where none of the three rounds, that is the real number
  \<open>(val - lo) / (hi - lo)\<close>. In particular \<^verbatim>\<open>InverseLerp(75, 0, 100)\<close> and
  \<^verbatim>\<open>InverseLerp(25, 100, 0)\<close> are both 0.75, and the result leaves the unit interval
  when \<open>val\<close> is outside the range: 4.0 for \<^verbatim>\<open>InverseLerp(50, 10, 20)\<close> and -0.75 for
  \<^verbatim>\<open>InverseLerp(-3, 0, 4)\<close>.
\<close>

theorem InverseLerp_normalizes:
  "(lo = hi \<longrightarrow> InverseLerp (Finite val) (Finite lo) (Finite hi) = Inl ZeroDivisionError)
   \<and> (is_double lo \<and> is_double hi \<and> lo \<noteq> hi \<longrightarrow>
        (\<exists>q. InverseLerp (Finite val) (Finite lo) (Finite hi) = Inr q
            \<and> fdiv (fsub (Finite val) (Finite lo)) (fsub (Finite hi) (Finite lo)) = Inr q))
   \<and> (lo \<noteq> hi \<and> is_double (val - lo) \<and> is_double (hi - lo)
        \<and> is_double ((val - lo) / (hi - lo)) \<longrightarrow>
        InverseLerp (Finite val) (Finite lo) (Finite hi) = Inr (Finite ((val - lo) / (hi - lo))))
   \<and> InverseLerp (Finite 75) (Finite 0) (Finite 100) = Inr (Finite 0.75)
   \<and> InverseLerp (Finite 25) (Finite 100) (Finite 0) = Inr (Finite 0.75)
   \<and> InverseLerp (Finite 50) (Finite 10) (Finite 20) = Inr (Finite 4)
   \<and> InverseLerp (Finite (- 3)) (Finite 0) (Finite 4) = Inr (Finite (- 0.75))"
proof -
  have equal: "InverseLerp (Finite val) (Finite lo) (Finite hi) = Inl ZeroDivisionError"
    if "lo = hi"
    using that by (simp add: InverseLerp_def fsub_def round_double_0)
  have differ: "\<exists>q. InverseLerp (Finite val) (Finite lo) (Finite hi) = Inr q
            \<and> fdiv (fsub (Finite val) (Finite lo)) (fsub (Finite hi) (Finite lo)) = Inr q"
    if "is_double lo \<and> is_double hi \<and> lo \<noteq> hi"
  proof -
    from that have "fsub (Finite hi) (Finite lo) \<noteq> Finite 0"
      by (intro fsub_doubles_nonzero) simp_all
    then obtain q where "fdiv (fsub (Finite val) (Finite lo)) (fsub (Finite hi) (Finite lo)) = Inr q"
      using fdiv_nonzero by blast
    then show ?thesis
      by (simp add: InverseLerp_def)
  qed
  have exact: "InverseLerp (Finite val) (Finite lo) (Finite hi)
                 = Inr (Finite ((val - lo) / (hi - lo)))"
    if "lo \<noteq> hi \<and> is_double (val - lo) \<and> is_double (hi - lo)
        \<and> is_double ((val - lo) / (hi - lo))"
    using that by (simp add: InverseLerp_def fsub_def is_double_def)
  have d: "round_double 75 = Finite 75" "round_double 100 = Finite 100"
    "round_double (- 75) = Finite (- 75)" "round_double (- 100) = Finite (- 100)"
    "round_double 40 = Finite 40" "round_double 10 = Finite 10"
    "round_double (- 3) = Finite (- 3)"
    using round_double_of_int [of 75] round_double_of_int [of 100]
      round_double_of_int [of "- 75"] round_double_of_int [of "- 100"]
      round_double_of_int [of 40] round_double_of_int [of 10] round_double_of_int [of "- 3"]
    by simp_all
  have examples: "InverseLerp (Finite 75) (Finite 0) (Finite 100) = Inr (Finite 0.75)"
    "InverseLerp (Finite 25) (Finite 100) (Finite 0) = Inr (Finite 0.75)"
    "InverseLerp (Finite 50) (Finite 10) (Finite 20) = Inr (Finite 4)"
    "InverseLerp (Finite (- 3)) (Finite 0) (Finite 4) = Inr (Finite (- 0.75))"
    by (simp_all add: InverseLerp_def fsub_def d round_double_small_ints round_double_fractions)
  from equal differ exact examples show ?thesis
    by blast
qed

theorem InverseLerp_normalizes_witness:
  "InverseLerp (Finite 5) (Finite 3) (Finite 3) = Inl ZeroDivisionError
   \<and> is_double 0 \<and> is_double 4 \<and> (0::real) \<noteq> 4 \<and> is_double (3 - 0) \<and> is_double (4 - 0)
   \<and> is_double ((3 - 0) / (4 - 0))
   \<and> InverseLerp (Finite 3) (Finite 0) (Finite 4) = Inr (Finite (3 / 4))
   \<and> fdiv (fsub (Finite 3) (Finite 0)) (fsub (Finite 4) (Finite 0)) = Inr (Finite (3 / 4))"
  using InverseLerp_normalizes [of 3 3 5] InverseLerp_normalizes [of 0 4 3]
  by (simp add: is_double_def InverseLerp_def fsub_def round_double_0 round_double_small_ints
      round_double_fractions)

text \<open>
  The claim as written (equal bounds always raise, and never give NaN silently) is false
  for bounds that are both the same infinity: \<open>inf - inf\<close> is NaN, which is not zero, so
  the division raises nothing and returns NaN.
\<close>

theorem InverseLerp_infinite_counterexample:
  "InverseLerp (Finite 5) PosInf PosInf = Inr NaN"
  by (simp add: InverseLerp_def fsub_def)

section \<open>Colour choice\<close>

text \<open>
  C7, as the code has it. Constructing \<^verbatim>\<open>EmitterColor_Choice\<close> with the empty tuple
  succeeds, and the failure comes later: \<^verbatim>\<open>get_color\<close> on that object raises
  \<^verbatim>\<open>IndexError\<close>, whatever the generator returns. The constructor fails, with an
  \<^verbatim>\<open>AssertionError\<close>, exactly when its argument is not a tuple or has an item that is
  neither a tuple nor a \<^verbatim>\<open>pygame.Color\<close>.
\<close>

theorem EmitterColor_Choice_construction:
  "EmitterColor_Choice_init (PyTuple []) = Inr (EmitterColor_Choice [])
   \<and> get_color (EmitterColor_Choice []) g = Inl IndexError
   \<and> (EmitterColor_Choice_init v = Inl AssertionError)
       = (\<not> (\<exists>items. v = PyTuple items \<and> list_all is_tuple_or_Color items))"
  by (cases v)
    (auto simp add: EmitterColor_Choice_init_def random_choice_def random_random_def
       float_of_int_def round_double_0 py_trunc_def)

text \<open>
  The claim as written (construction from an empty set of choices fails) is false: the
  empty tuple passes both assertions of the constructor.
\<close>

theorem EmitterColor_Choice_empty_counterexample:
  "EmitterColor_Choice_init (PyTuple []) = Inr (EmitterColor_Choice [])"
  by (simp add: EmitterColor_Choice_init_def)

section \<open>cRange\<close>

lemma Include_initialized:
  assumes "isInitialized r" "lo_attr r = Some l" "hi_attr r = Some h"
  shows "Include v r = Inr (r\<lparr>lo_attr := Some (if flt v l then v else l),
                               hi_attr := Some (if flt h v then v else h)\<rparr>)"
  using assms by (auto simp add: Include_def Let_def)

lemma Include_all_initialized:
  assumes "isInitialized r" "lo_attr r = Some l" "hi_attr r = Some h"
    and "l \<noteq> NaN" "h \<noteq> NaN" "fle l h" "NaN \<notin> set vs"
  shows "\<exists>l' h'. Include_all vs r = Inr (r\<lparr>lo_attr := Some l', hi_attr := Some h'\<rparr>)
           \<and> l' \<in> insert l (set vs) \<and> h' \<in> insert h (set vs)
           \<and> fle l' l \<and> fle h h' \<and> fle l' h'
           \<and> (\<forall>v\<in>set vs. fle l' v \<and> fle v h')"
  using assms
proof (induction vs arbitrary: r l h)
  case Nil
  then show ?case by (simp add: fle_refl)
next
  case (Cons v vs)
  define l1 where "l1 = (if flt v l then v else l)"
  define h1 where "h1 = (if flt h v then v else h)"
  let ?r' = "r\<lparr>lo_attr := Some l1, hi_attr := Some h1\<rparr>"
  from Cons.prems have v: "v \<noteq> NaN" and rest: "NaN \<notin> set vs"
    by auto
  have step: "Include v r = Inr ?r'"
    unfolding l1_def h1_def using Cons.prems(1,2,3) by (rule Include_initialized)
  have l1: "l1 \<noteq> NaN" "fle l1 l" "fle l1 v" "l1 \<in> {l, v}"
    using v Cons.prems(4) by (auto simp add: l1_def fle_refl flt_imp_fle not_flt_imp_fle)
  have h1: "h1 \<noteq> NaN" "fle h h1" "fle v h1" "h1 \<in> {h, v}"
    using v Cons.prems(5) by (auto simp add: h1_def fle_refl flt_imp_fle not_flt_imp_fle)
  have l1h1: "fle l1 h1"
    using l1(2) Cons.prems(6) h1(2) by (blast intro: fle_trans)
  have "\<exists>l' h'. Include_all vs ?r' = Inr (?r'\<lparr>lo_attr := Some l', hi_attr := Some h'\<rparr>)
           \<and> l' \<in> insert l1 (set vs) \<and> h' \<in> insert h1 (set vs)
           \<and> fle l' l1 \<and> fle h1 h' \<and> fle l' h'
           \<and> (\<forall>v\<in>set vs. fle l' v \<and> fle v h')"
    by (rule Cons.IH) (simp_all add: Cons.prems(1) l1(1) h1(1) l1h1 rest)
  then obtain l' h' where
    run: "Include_all vs ?r' = Inr (?r'\<lparr>lo_attr := Some l', hi_attr := Some h'\<rparr>)"
    and mem: "l' \<in> insert l1 (set vs)" "h' \<in> insert h1 (set vs)"
    and ord: "fle l' l1" "fle h1 h'" "fle l' h'"
    and all: "\<forall>v\<in>set vs. fle l' v \<and> fle v h'"
    by blast
  have "Include_all (v # vs) r = Inr (r\<lparr>lo_attr := Some l', hi_attr := Some h'\<rparr>)"
    using step run by simp
  moreover have "l' \<in> insert l (set (v # vs))" "h' \<in> insert h (set (v # vs))"
    using mem l1(4) h1(4) by auto
  moreover have "fle l' l" "fle h h'" "fle l' v" "fle v h'"
    using ord l1 h1 by (blast intro: fle_trans)+
  ultimately show ?case
    using ord(3) all by auto
qed

lemma Include_all_empty:
  assumes "NaN \<notin> set (v # vs)"
  shows "\<exists>l h. Include_all (v # vs) cRange_empty
                  = Inr \<lparr>isInitialized = True, lo_attr = Some l, hi_attr = Some h\<rparr>
           \<and> l \<in> set (v # vs) \<and> h \<in> set (v # vs) \<and> fle l h
           \<and> (\<forall>x\<in>set (v # vs). fle l x \<and> fle x h)"
proof -
  let ?r = "\<lparr>isInitialized = True, lo_attr = Some v, hi_attr = Some v\<rparr>"
  from assms have v: "v \<noteq> NaN" and rest: "NaN \<notin> set vs"
    by auto
  have first: "Include v cRange_empty = Inr ?r"
    by (simp add: Include_def cRange_empty_def)
  have "\<exists>l' h'. Include_all vs ?r = Inr (?r\<lparr>lo_attr := Some l', hi_attr := Some h'\<rparr>)
           \<and> l' \<in> insert v (set vs) \<and> h' \<in> insert v (set vs)
           \<and> fle l' v \<and> fle v h' \<and> fle l' h'
           \<and> (\<forall>v\<in>set vs. fle l' v \<and> fle v h')"
    by (rule Include_all_initialized) (simp_all add: v rest fle_refl)
  then obtain l h where
    run: "Include_all vs ?r = Inr (?r\<lparr>lo_attr := Some l, hi_attr := Some h\<rparr>)"
    and facts: "l \<in> insert v (set vs)" "h \<in> insert v (set vs)" "fle l v" "fle v h" "fle l h"
      "\<forall>v\<in>set vs. fle l v \<and> fle v h"
    by blast
  have "Include_all (v # vs) cRange_empty
          = Inr \<lparr>isInitialized = True, lo_attr = Some l, hi_attr = Some h\<rparr>"
    using first run by simp
  with facts show ?thesis
    by auto
qed

text \<open>
  C6, for values that are not NaN. After any non-empty sequence of \<^verbatim>\<open>Include\<close> calls
  with such values on a fresh \<^verbatim>\<open>cRange\<close>, the range is initialized, \<^verbatim>\<open>lo\<close> and
  \<^verbatim>\<open>hi\<close> are two of the values included, \<open>lo \<le> hi\<close> holds, and every value included
  lies between them. \<^verbatim>\<open>Span()\<close> is \<open>hi - lo\<close> and \<^verbatim>\<open>Mid()\<close> is \<open>(lo + hi) / 2.0\<close>,
  in double arithmetic. \<^verbatim>\<open>Include(5)\<close> then \<^verbatim>\<open>Include(-3)\<close> gives \<open>lo = -3\<close>,
  \<open>hi = 5\<close>, span 8 and midpoint 1.0. On a range that was never initialized, reading
  \<^verbatim>\<open>.lo\<close> or \<^verbatim>\<open>.hi\<close> and calling \<^verbatim>\<open>Span()\<close> or \<^verbatim>\<open>Mid()\<close> fail with an
  \<^verbatim>\<open>AssertionError\<close>.
\<close>

theorem cRange_invariants:
  "(vs \<noteq> [] \<and> NaN \<notin> set vs \<longrightarrow>
      (\<exists>r l h. Include_all vs cRange_empty = Inr r
         \<and> cRange_getattr r ''lo'' = Inr l
         \<and> cRange_getattr r ''hi'' = Inr h
         \<and> fle l h \<and> l \<in> set vs \<and> h \<in> set vs
         \<and> (\<forall>v\<in>set vs. fle l v \<and> fle v h)
         \<and> Span r = Inr (fsub h l)
         \<and> Mid r = fdiv (fadd l h) (Finite 2)))
   \<and> (\<exists>r. Include_all [Finite 5, Finite (- 3)] cRange_empty = Inr r
         \<and> cRange_getattr r ''lo'' = Inr (Finite (- 3)) \<and> cRange_getattr r ''hi'' = Inr (Finite 5)
         \<and> Span r = Inr (Finite 8) \<and> Mid r = Inr (Finite 1))
   \<and> cRange_init None None = Inr cRange_empty
   \<and> cRange_getattr cRange_empty ''lo'' = Inl AssertionError
   \<and> cRange_getattr cRange_empty ''hi'' = Inl AssertionError
   \<and> Span cRange_empty = Inl AssertionError
   \<and> Mid cRange_empty = Inl AssertionError"
proof -
  have general: "\<exists>r l h. Include_all vs cRange_empty = Inr r
         \<and> cRange_getattr r ''lo'' = Inr l
         \<and> cRange_getattr r ''hi'' = Inr h
         \<and> fle l h \<and> l \<in> set vs \<and> h \<in> set vs
         \<and> (\<forall>v\<in>set vs. fle l v \<and> fle v h)
         \<and> Span r = Inr (fsub h l)
         \<and> Mid r = fdiv (fadd l h) (Finite 2)" if "vs \<noteq> [] \<and> NaN \<notin> set vs"
  proof -
    from that obtain v ws where vs: "vs = v # ws" by (cases vs) auto
    with that have "NaN \<notin> set (v # ws)" by simp
    from Include_all_empty [OF this] obtain l h where
      run: "Include_all vs cRange_empty
              = Inr \<lparr>isInitialized = True, lo_attr = Some l, hi_attr = Some h\<rparr>"
      and facts: "l \<in> set vs" "h \<in> set vs" "fle l h" "\<forall>x\<in>set vs. fle l x \<and> fle x h"
      unfolding vs by blast
    let ?r = "\<lparr>isInitialized = True, lo_attr = Some l, hi_attr = Some h\<rparr>"
    have "cRange_getattr ?r ''lo'' = Inr l" "cRange_getattr ?r ''hi'' = Inr h"
      "Span ?r = Inr (fsub h l)" "Mid ?r = fdiv (fadd l h) (Finite 2)"
      by (simp_all add: cRange_getattr_def Span_def Mid_def)
    with run facts show ?thesis by blast
  qed
  have example: "\<exists>r. Include_all [Finite 5, Finite (- 3)] cRange_empty = Inr r
         \<and> cRange_getattr r ''lo'' = Inr (Finite (- 3)) \<and> cRange_getattr r ''hi'' = Inr (Finite 5)
         \<and> Span r = Inr (Finite 8) \<and> Mid r = Inr (Finite 1)"
    by (simp add: Include_def cRange_empty_def cRange_getattr_def Span_def Mid_def fsub_def
        round_double_small_ints)
  have uninit: "cRange_init None None = Inr cRange_empty
   \<and> cRange_getattr cRange_empty ''lo'' = Inl AssertionError
   \<and> cRange_getattr cRange_empty ''hi'' = Inl AssertionError
   \<and> Span cRange_empty = Inl AssertionError
   \<and> Mid cRange_empty = Inl AssertionError"
    by (simp add: cRange_init_def cRange_empty_def cRange_getattr_def Span_def Mid_def)
  from general example uninit show ?thesis by blast
qed

theorem cRange_invariants_witness:
  "[Finite 2, PosInf, Finite 1] \<noteq> [] \<and> NaN \<notin> set [Finite 2, PosInf, Finite 1]
   \<and> (\<exists>r l h. Include_all [Finite 2, PosInf, Finite 1] cRange_empty = Inr r
         \<and> cRange_getattr r ''lo'' = Inr l \<and> cRange_getattr r ''hi'' = Inr h
         \<and> fle l h \<and> l \<in> set [Finite 2, PosInf, Finite 1] \<and> h \<in> set [Finite 2, PosInf, Finite 1]
         \<and> (\<forall>v\<in>set [Finite 2, PosInf, Finite 1]. fle l v \<and> fle v h))
   \<and> Include_all [Finite 2, PosInf, Finite 1] cRange_empty
       = Inr \<lparr>isInitialized = True, lo_attr = Some (Finite 1), hi_attr = Some PosInf\<rparr>"
  using cRange_invariants [of "[Finite 2, PosInf, Finite 1]"]
  by (simp add: Include_def cRange_empty_def cRange_getattr_def)

text \<open>
  The claim as written (\<open>lo \<le> hi\<close> after any sequence of \<^verbatim>\<open>Include\<close> calls) is false
  when the first value included is NaN: it becomes both bounds, no later value replaces
  it since every comparison with it is false, and \<open>lo \<le> hi\<close> is false of it.
\<close>

theorem cRange_NaN_counterexample:
  "Include_all [NaN, Finite 1] cRange_empty
     = Inr \<lparr>isInitialized = True, lo_attr = Some NaN, hi_attr = Some NaN\<rparr>
   \<and> cRange_getattr \<lparr>isInitialized = True, lo_attr = Some NaN, hi_attr = Some NaN\<rparr> ''lo''
       = Inr NaN
   \<and> cRange_getattr \<lparr>isInitialized = True, lo_attr = Some NaN, hi_attr = Some NaN\<rparr> ''hi''
       = Inr NaN
   \<and> \<not> fle NaN NaN"
  by (simp add: Include_def cRange_empty_def cRange_getattr_def)

section \<open>NearestMultiple\<close>

lemma NearestMultiple_offset:
  fixes num t :: int
  assumes "0 < t"
  defines "q \<equiv> (num + t div 2) div t"
  shows "- (t div 2) \<le> num - q * t" and "num - q * t < t - t div 2"
proof -
  have "num + t div 2 = t * q + (num + t div 2) mod t"
    unfolding q_def by simp
  moreover have "0 \<le> (num + t div 2) mod t" "(num + t div 2) mod t < t"
    using assms(1) by simp_all
  ultimately show "- (t div 2) \<le> num - q * t" and "num - q * t < t - t div 2"
    by (simp_all add: mult.commute)
qed

lemma NearestMultiple_other:
  fixes num t q m :: int
  assumes t: "0 < t"
    and lo: "- (t div 2) \<le> num - q * t" and hi: "num - q * t < t - t div 2"
  shows "\<bar>num - q * t\<bar> \<le> \<bar>num - m * t\<bar>"
    and "\<bar>num - q * t\<bar> = \<bar>num - m * t\<bar> \<Longrightarrow> m * t \<le> q * t"
proof -
  have half: "2 * (t div 2) \<le> t" "t \<le> 2 * (t div 2) + 1"
    by presburger+
  consider "m \<le> q - 1" | "m = q" | "q + 1 \<le> m" by linarith
  then have "\<bar>num - q * t\<bar> \<le> \<bar>num - m * t\<bar>
      \<and> (\<bar>num - q * t\<bar> = \<bar>num - m * t\<bar> \<longrightarrow> m * t \<le> q * t)"
  proof cases
    case 1
    then have "m * t \<le> (q - 1) * t"
      using t by (simp add: mult_right_mono)
    then have "m * t \<le> q * t - t"
      by (simp add: algebra_simps)
    with lo hi half show ?thesis by linarith
  next
    case 2
    then show ?thesis by simp
  next
    case 3
    then have "(q + 1) * t \<le> m * t"
      using t by (simp add: mult_right_mono)
    then have "q * t + t \<le> m * t"
      by (simp add: algebra_simps)
    with lo hi half show ?thesis by linarith
  qed
  then show "\<bar>num - q * t\<bar> \<le> \<bar>num - m * t\<bar>"
    and "\<bar>num - q * t\<bar> = \<bar>num - m * t\<bar> \<Longrightarrow> m * t \<le> q * t"
    by simp_all
qed

text \<open>
  C9. For every integer \<open>num\<close> and every positive integer \<open>target\<close>,
  \<^verbatim>\<open>NearestMultiple(num, target)\<close> returns a multiple of \<open>target\<close> that is at least as
  near to \<open>num\<close> as every other multiple, and when another multiple is equally near,
  the one returned is the greater: a tie is rounded upward. In particular
  \<^verbatim>\<open>NearestMultiple(6, 4)\<close> is 8 and \<^verbatim>\<open>NearestMultiple(-120, 90)\<close> is -90.
\<close>

theorem NearestMultiple_nearest:
  "(0 < target \<longrightarrow>
      (\<exists>k. NearestMultiple num target = Inr (k * target)
         \<and> (\<forall>m. \<bar>num - k * target\<bar> \<le> \<bar>num - m * target\<bar>
                \<and> (\<bar>num - k * target\<bar> = \<bar>num - m * target\<bar> \<longrightarrow> m * target \<le> k * target))))
   \<and> NearestMultiple 6 4 = Inr 8
   \<and> NearestMultiple (-120) 90 = Inr (-90)"
proof -
  have general: "\<exists>k. NearestMultiple num target = Inr (k * target)
         \<and> (\<forall>m. \<bar>num - k * target\<bar> \<le> \<bar>num - m * target\<bar>
                \<and> (\<bar>num - k * target\<bar> = \<bar>num - m * target\<bar> \<longrightarrow> m * target \<le> k * target))"
    if pos: "0 < target"
  proof -
    let ?q = "(num + target div 2) div target"
    have res: "NearestMultiple num target = Inr (?q * target)"
      using pos by (simp add: NearestMultiple_def)
    have "\<bar>num - ?q * target\<bar> \<le> \<bar>num - m * target\<bar>
        \<and> (\<bar>num - ?q * target\<bar> = \<bar>num - m * target\<bar> \<longrightarrow> m * target \<le> ?q * target)" for m
      using NearestMultiple_other [OF pos NearestMultiple_offset [OF pos, of num], of m]
      by blast
    with res show ?thesis by blast
  qed
  have "NearestMultiple 6 4 = Inr 8" "NearestMultiple (-120) 90 = Inr (-90)"
    by (simp_all add: NearestMultiple_def)
  with general show ?thesis by blast
qed

theorem NearestMultiple_nearest_witness:
  "(0::int) < 4 \<and> NearestMultiple 10 4 = Inr 12
   \<and> (\<exists>k. NearestMultiple 10 4 = Inr (k * 4)
        \<and> (\<forall>m. \<bar>10 - k * 4\<bar> \<le> \<bar>10 - m * 4\<bar>
              \<and> (\<bar>10 - k * 4\<bar> = \<bar>10 - m * 4\<bar> \<longrightarrow> m * 4 \<le> k * 4)))"
  using NearestMultiple_nearest [of 4 10] by (simp add: NearestMultiple_def)

section \<open>Rate policies: constant delay\<close>











section \<open>ActorList: step, reap and draw\<close>

lemma own_step_result:
  assumes "own_step method t r g = Inr g'"
  shows "method t (g r) = Inr (g' r)" and "\<forall>q. q \<noteq> r \<longrightarrow> g' q = g q"
  using assms by (auto simp add: own_step_def split: sum.splits)

lemma step_actors_result:
  assumes "step_actors astep acan_reap dt rs h del = Inr (h', del')" and "distinct rs"
    and local: "\<forall>r g g'. astep dt r g = Inr g' \<longrightarrow> (\<forall>q. q \<noteq> r \<longrightarrow> g' q = g q)"
  shows "del' = del @ filter (\<lambda>r. acan_reap (h' r)) rs
         \<and> (\<forall>r. r \<notin> set rs \<longrightarrow> h' r = h r)
         \<and> (\<forall>r\<in>set rs. \<exists>g g'. astep dt r g = Inr g' \<and> g r = h r \<and> g' r = h' r)"
  using assms(1,2)
proof (induction rs arbitrary: h del)
  case Nil
  then show ?case by simp
next
  case (Cons a rs)
  from Cons.prems(1) obtain h1 where h1: "astep dt a h = Inr h1"
    by (auto split: sum.splits)
  let ?del = "if acan_reap (h1 a) then del @ [a] else del"
  from Cons.prems(1) h1 have run: "step_actors astep acan_reap dt rs h1 ?del = Inr (h', del')"
    by simp
  from Cons.prems(2) have fresh: "a \<notin> set rs" and dist: "distinct rs"
    by simp_all
  from local have "astep dt a h = Inr h1 \<longrightarrow> (\<forall>q. q \<noteq> a \<longrightarrow> h1 q = h q)"
    by (elim allE)
  with h1 have others: "\<forall>q. q \<noteq> a \<longrightarrow> h1 q = h q"
    by (rule rev_mp)
  from Cons.IH [OF run dist] have
    del': "del' = ?del @ filter (\<lambda>r. acan_reap (h' r)) rs"
    and same: "\<forall>r. r \<notin> set rs \<longrightarrow> h' r = h1 r"
    and stepped: "\<forall>r\<in>set rs. \<exists>g g'. astep dt r g = Inr g' \<and> g r = h1 r \<and> g' r = h' r"
    by blast+
  from same fresh have ha: "h' a = h1 a" by simp
  have "del' = del @ filter (\<lambda>r. acan_reap (h' r)) (a # rs)"
    using del' ha by simp
  moreover have "\<forall>r. r \<notin> set (a # rs) \<longrightarrow> h' r = h r"
    using same others by simp
  moreover have "\<forall>r\<in>set (a # rs). \<exists>g g'. astep dt r g = Inr g' \<and> g r = h r \<and> g' r = h' r"
  proof
    fix r assume "r \<in> set (a # rs)"
    then consider "r = a" | "r \<in> set rs" "r \<noteq> a"
      using fresh by auto
    then show "\<exists>g g'. astep dt r g = Inr g' \<and> g r = h r \<and> g' r = h' r"
    proof cases
      case 1
      with h1 ha have "astep dt r h = Inr h1 \<and> h r = h r \<and> h1 r = h' r" by simp
      then show ?thesis by blast
    next
      case 2
      with stepped obtain g g' where "astep dt r g = Inr g'" "g r = h1 r" "g' r = h' r"
        by blast
      moreover from 2 others have "h1 r = h r" by simp
      ultimately have "astep dt r g = Inr g' \<and> g r = h r \<and> g' r = h' r" by simp
      then show ?thesis by blast
    qed
  qed
  ultimately show ?case by blast
qed

lemma remove_actors_filter:
  assumes "distinct self" and "distinct ds" and "set ds \<subseteq> set self"
  shows "remove_actors ds self = Inr (filter (\<lambda>r. r \<notin> set ds) self)"
  using assms
proof (induction ds arbitrary: self)
  case Nil
  then show ?case by simp
next
  case (Cons d ds)
  from Cons.prems have d: "d \<in> set self" "d \<notin> set ds" "distinct ds"
    by simp_all
  have rem: "remove1 d self = filter (\<lambda>r. r \<noteq> d) self"
    using Cons.prems(1) by (simp add: distinct_remove1_removeAll removeAll_filter_not_eq) metis
  have "remove_actors ds (remove1 d self) = Inr (filter (\<lambda>r. r \<notin> set ds) (remove1 d self))"
  proof (rule Cons.IH)
    show "distinct (remove1 d self)" using Cons.prems(1) by simp
    show "distinct ds" by (rule d(3))
    show "set ds \<subseteq> set (remove1 d self)"
      using Cons.prems(1,3) d(2) by auto
  qed
  then show ?case
    using d(1) rem by (simp add: list_remove_def conj_commute)
qed

lemma ActorList_step_result:
  assumes "ActorList_step astep acan_reap dt self h = Inr (self', h')" and "distinct self"
    and local: "\<forall>r g g'. astep dt r g = Inr g' \<longrightarrow> (\<forall>q. q \<noteq> r \<longrightarrow> g' q = g q)"
  shows "self' = filter (\<lambda>r. \<not> acan_reap (h' r)) self
         \<and> (\<forall>r. r \<notin> set self \<longrightarrow> h' r = h r)
         \<and> (\<forall>r\<in>set self. \<exists>g g'. astep dt r g = Inr g' \<and> g r = h r \<and> g' r = h' r)"
proof -
  from assms(1) obtain del where
    first: "step_actors astep acan_reap dt self h [] = Inr (h', del)"
    and second: "remove_actors del self = Inr self'"
    by (auto simp add: ActorList_step_def split: sum.splits)
  from step_actors_result [OF first assms(2) local] have
    del: "del = filter (\<lambda>r. acan_reap (h' r)) self"
    and rest: "(\<forall>r. r \<notin> set self \<longrightarrow> h' r = h r)
               \<and> (\<forall>r\<in>set self. \<exists>g g'. astep dt r g = Inr g' \<and> g r = h r \<and> g' r = h' r)"
    by simp_all
  have "remove_actors del self = Inr (filter (\<lambda>r. r \<notin> set del) self)"
    by (rule remove_actors_filter) (simp_all add: del assms(2))
  with second have "self' = filter (\<lambda>r. r \<notin> set del) self" by simp
  also have "\<dots> = filter (\<lambda>r. \<not> acan_reap (h' r)) self"
    unfolding del by (rule filter_cong) auto
  finally show ?thesis using rest by blast
qed

lemma ActorList_draw_record:
  "ActorList_draw record_draw rs h surface = Inr (surface @ rs)"
  by (induction rs arbitrary: surface) (simp_all add: record_draw_def)

text \<open>
  C2, as the code has it. Take a collection that holds each entity once, and entities
  whose \<^verbatim>\<open>step\<close> changes no entity but its own. A \<^verbatim>\<open>step(dt)\<close> that returns has
  stepped every entity once and has removed, before it returns, every entity that is
  reapable after its step: what stays is the entities that are not reapable, in insertion
  order. So the next \<^verbatim>\<open>draw(surface)\<close> draws exactly those and does not draw an entity
  that became reapable in the step, and a later step neither visits nor changes an entity
  outside the collection.
\<close>

theorem ActorList_step_removes_reapable:
  assumes "distinct self"
    and "\<forall>t r g g'. astep t r g = Inr g' \<longrightarrow> (\<forall>q. q \<noteq> r \<longrightarrow> g' q = g q)"
    and "ActorList_step astep acan_reap dt self h = Inr (self', h')"
  shows "self' = filter (\<lambda>r. \<not> acan_reap (h' r)) self
       \<and> (\<forall>r\<in>set self. \<exists>g g'. astep dt r g = Inr g' \<and> g r = h r \<and> g' r = h' r)
       \<and> (\<forall>r\<in>set self. acan_reap (h' r) \<longrightarrow> r \<notin> set self')
       \<and> ActorList_draw record_draw self' h' surface = Inr (surface @ self')
       \<and> (\<forall>dt2 self2 h2.
             ActorList_step astep acan_reap dt2 self' h' = Inr (self2, h2) \<longrightarrow>
               set self2 \<subseteq> set self' \<and> (\<forall>r. r \<notin> set self' \<longrightarrow> h2 r = h' r))"
proof -
  have local: "\<forall>r g g'. astep t r g = Inr g' \<longrightarrow> (\<forall>q. q \<noteq> r \<longrightarrow> g' q = g q)" for t
    using assms(2) by (rule spec)
  from ActorList_step_result [OF assms(3,1) local] have
    kept: "self' = filter (\<lambda>r. \<not> acan_reap (h' r)) self"
    and stepped: "\<forall>r\<in>set self. \<exists>g g'. astep dt r g = Inr g' \<and> g r = h r \<and> g' r = h' r"
    by blast+
  have gone: "\<forall>r\<in>set self. acan_reap (h' r) \<longrightarrow> r \<notin> set self'"
    unfolding kept by simp
  have dist: "distinct self'"
    unfolding kept using assms(1) by (rule distinct_filter)
  have drawn: "ActorList_draw record_draw self' h' surface = Inr (surface @ self')"
    by (rule ActorList_draw_record)
  have later: "\<forall>dt2 self2 h2.
             ActorList_step astep acan_reap dt2 self' h' = Inr (self2, h2) \<longrightarrow>
               set self2 \<subseteq> set self' \<and> (\<forall>r. r \<notin> set self' \<longrightarrow> h2 r = h' r)"
  proof (intro allI impI)
    fix dt2 self2 h2
    assume next_step: "ActorList_step astep acan_reap dt2 self' h' = Inr (self2, h2)"
    from ActorList_step_result [OF next_step dist local] have
      "self2 = filter (\<lambda>r. \<not> acan_reap (h2 r)) self'"
      and same: "\<forall>r. r \<notin> set self' \<longrightarrow> h2 r = h' r"
      by blast+
    then have "set self2 \<subseteq> set self'"
      by (metis filter_is_subset)
    then show "set self2 \<subseteq> set self' \<and> (\<forall>r. r \<notin> set self' \<longrightarrow> h2 r = h' r)"
      using same by (rule conjI)
  qed
  from kept stepped gone drawn later show ?thesis
    by (intro conjI)
qed

lemma own_step_local:
  "\<forall>t r g g'. own_step method t r g = Inr g' \<longrightarrow> (\<forall>q. q \<noteq> r \<longrightarrow> g' q = g q)"
proof (intro allI impI)
  fix t r g g' q
  assume "own_step method t r g = Inr g'" and "q \<noteq> r"
  then show "g' q = g q"
    by (auto simp add: own_step_def split: sum.splits)
qed

lemma example_heap_0: "example_heap 0 = example_particle"
  and example_heap_2: "example_heap 2 = example_particle\<lparr>p_lifetime_remaining := Finite 2\<rparr>"
  by (simp_all add: example_heap_def)

lemma Particle_step_example:
  "Particle_step (Finite 1) example_particle
     = Inr (example_particle\<lparr>p_lifetime_remaining := Finite 0\<rparr>)"
  by (simp add: Particle_step_def Particle_can_reap_def example_particle_def vadd_def vmul_def
      fsub_def Let_def round_double_0)

lemma Particle_step_example_2:
  "Particle_step (Finite 1) (example_particle\<lparr>p_lifetime_remaining := Finite 2\<rparr>)
     = Inr example_particle"
  by (simp add: Particle_step_def Particle_can_reap_def example_particle_def vadd_def vmul_def
      fsub_def Let_def round_double_0 round_double_small_ints)

lemma Particle_can_reap_example:
  "Particle_can_reap (example_particle\<lparr>p_lifetime_remaining := Finite 0\<rparr>)"
  "\<not> Particle_can_reap example_particle"
  by (simp_all add: Particle_can_reap_def example_particle_def)

lemma ActorList_step_example_2:
  "ActorList_step (own_step Particle_step) Particle_can_reap (Finite 1) [0, 2] example_heap
     = Inr ([2], example_heap
              (0 := example_particle\<lparr>p_lifetime_remaining := Finite 0\<rparr>,
               2 := example_particle))"
  by (simp add: ActorList_step_def own_step_def list_remove_def example_heap_0 example_heap_2
      Particle_step_example Particle_step_example_2 Particle_can_reap_example)

lemma ActorList_step_example:
  "ActorList_step (own_step Particle_step) Particle_can_reap (Finite 1) [0] example_heap
     = Inr ([], example_heap (0 := example_particle\<lparr>p_lifetime_remaining := Finite 0\<rparr>))"
  by (simp add: ActorList_step_def own_step_def list_remove_def example_heap_0 example_heap_2
      Particle_step_example Particle_step_example_2 Particle_can_reap_example)

theorem ActorList_step_removes_reapable_witness:
  "distinct [0, 2 :: ref]
   \<and> ActorList_step (own_step Particle_step) Particle_can_reap (Finite 1) [0, 2] example_heap
       = Inr ([2], example_heap
                (0 := example_particle\<lparr>p_lifetime_remaining := Finite 0\<rparr>,
                 2 := example_particle))
   \<and> Particle_can_reap (example_particle\<lparr>p_lifetime_remaining := Finite 0\<rparr>)
   \<and> [2] = filter (\<lambda>r. \<not> Particle_can_reap
              ((example_heap
                 (0 := example_particle\<lparr>p_lifetime_remaining := Finite 0\<rparr>,
                  2 := example_particle)) r)) [0, 2]
   \<and> ActorList_draw record_draw [2]
         (example_heap
            (0 := example_particle\<lparr>p_lifetime_remaining := Finite 0\<rparr>,
             2 := example_particle)) []
       = Inr [2]"
proof -
  let ?h = "example_heap
              (0 := example_particle\<lparr>p_lifetime_remaining := Finite 0\<rparr>, 2 := example_particle)"
  have dist: "distinct [0, 2 :: ref]" by simp
  have local: "\<forall>t r g g'. own_step Particle_step t r g = Inr g' \<longrightarrow> (\<forall>q. q \<noteq> r \<longrightarrow> g' q = g q)"
    by (rule own_step_local)
  note result = ActorList_step_removes_reapable [OF dist local ActorList_step_example_2, of "[]"]
  from result have kept: "[2] = filter (\<lambda>r. \<not> Particle_can_reap (?h r)) [0, 2]"
    by (rule conjunct1)
  from result have drawn: "ActorList_draw record_draw [2] ?h [] = Inr ([] @ [2])"
    by (elim conjE)
  then have drawn': "ActorList_draw record_draw [2] ?h [] = Inr [2]"
    by (simp only: append_Nil)
  from dist ActorList_step_example_2 Particle_can_reap_example(1) kept drawn' show ?thesis
    by (intro conjI)
qed

text \<open>
  The claim as written (an entity that becomes reapable during a step is drawn once more
  by the next draw) is false: a particle with one second to live, stepped by one second,
  is out of the list when \<^verbatim>\<open>step\<close> returns, and the draw that follows draws nothing.
\<close>

theorem ActorList_draws_reaped_counterexample:
  "\<not> Particle_can_reap (example_heap 0)
   \<and> ActorList_step (own_step Particle_step) Particle_can_reap (Finite 1) [0] example_heap
       = Inr ([], example_heap (0 := example_particle\<lparr>p_lifetime_remaining := Finite 0\<rparr>))
   \<and> Particle_can_reap
        ((example_heap (0 := example_particle\<lparr>p_lifetime_remaining := Finite 0\<rparr>)) 0)
   \<and> ActorList_draw record_draw []
         (example_heap (0 := example_particle\<lparr>p_lifetime_remaining := Finite 0\<rparr>)) []
       = Inr []"
proof -
  have "\<not> Particle_can_reap (example_heap 0)"
    unfolding example_heap_0 by (rule Particle_can_reap_example(2))
  moreover have "Particle_can_reap
        ((example_heap (0 := example_particle\<lparr>p_lifetime_remaining := Finite 0\<rparr>)) 0)"
    unfolding fun_upd_same by (rule Particle_can_reap_example(1))
  moreover have "ActorList_draw record_draw []
         (example_heap (0 := example_particle\<lparr>p_lifetime_remaining := Finite 0\<rparr>)) []
       = Inr []"
    by (simp only: ActorList_draw.simps)
  ultimately show ?thesis
    using ActorList_step_example by (intro conjI)
qed

section \<open>Emitter: one step\<close>

lemma Particle_step_result:
  assumes "Particle_step dt p = Inr p'"
  shows "p_position p' = vadd (p_position p) (vmul (p_velocity p) dt)"
    and "p_velocity p' = p_velocity p"
    and "p_lifetime_remaining p' =
           (if flt (fsub (p_lifetime_remaining p) dt) (Finite 0) then Finite 0
            else fsub (p_lifetime_remaining p) dt)"
  using assms by (auto simp add: Particle_step_def Let_def split: if_splits)

lemma particles_stepped:
  assumes "ActorList_step (own_step Particle_step) Particle_can_reap dt ps h = Inr (ps', h')"
    and "distinct ps" and "r \<in> set ps"
  shows "Particle_step dt (h r) = Inr (h' r)"
proof -
  have local: "\<forall>r g g'. own_step Particle_step dt r g = Inr g' \<longrightarrow> (\<forall>q. q \<noteq> r \<longrightarrow> g' q = g q)"
    using own_step_local [of Particle_step] by (rule spec)
  from ActorList_step_result [OF assms(1,2) local] assms(3) obtain g g' where
    "own_step Particle_step dt r g = Inr g'" and g: "g r = h r" "g' r = h' r"
    by blast
  from own_step_result(1) [OF this(1)] have "Particle_step dt (g r) = Inr (g' r)" .
  with g show ?thesis by simp
qed

lemma new_particle_position:
  assumes "new_particle em g = Inr (p, g')"
  shows "p_position p = e_position em"
  using assms by (auto simp add: new_particle_def Let_def split: prod.splits sum.splits)

lemma emit_particles_result:
  assumes "emit_particles n em w = Inr (em', w')"
  shows "em' = em\<lparr>e_particles := e_particles em @ [next_ref w ..< next_ref w + n]\<rparr>
         \<and> next_ref w' = next_ref w + n
         \<and> (\<forall>r. r < next_ref w \<longrightarrow> heap w' r = heap w r)
         \<and> (\<forall>r. next_ref w \<le> r \<and> r < next_ref w + n \<longrightarrow> p_position (heap w' r) = e_position em)"
  using assms
proof (induction n arbitrary: em w)
  case 0
  then show ?case by auto
next
  case (Suc n)
  from Suc.prems obtain p g' where p: "new_particle em (gen w) = Inr (p, g')"
    by (auto split: sum.splits)
  define nr where "nr = next_ref w"
  define em2 where "em2 = em\<lparr>e_particles := e_particles em @ [nr]\<rparr>"
  define w2 where "w2 = w\<lparr>heap := (heap w)(nr := p), next_ref := Suc nr, gen := g'\<rparr>"
  from Suc.prems p have run: "emit_particles n em2 w2 = Inr (em', w')"
    by (simp add: em2_def w2_def nr_def Let_def)
  have w2: "next_ref w2 = Suc nr" "heap w2 = (heap w)(nr := p)"
    by (simp_all add: w2_def)
  have em2: "e_particles em2 = e_particles em @ [nr]" "e_position em2 = e_position em"
    by (simp_all add: em2_def)
  from Suc.IH [OF run] have
    em': "em' = em2\<lparr>e_particles := e_particles em2 @ [Suc nr ..< Suc nr + n]\<rparr>"
    and nxt: "next_ref w' = Suc nr + n"
    and old: "\<forall>r. r < Suc nr \<longrightarrow> heap w' r = heap w2 r"
    and new: "\<forall>r. Suc nr \<le> r \<and> r < Suc nr + n \<longrightarrow> p_position (heap w' r) = e_position em2"
    unfolding w2(1) by blast+
  have "[nr] @ [Suc nr ..< Suc nr + n] = [nr ..< nr + Suc n]"
    by (simp add: upt_conv_Cons)
  then have "e_particles em2 @ [Suc nr ..< Suc nr + n] = e_particles em @ [nr ..< nr + Suc n]"
    by (simp add: em2(1))
  with em' have 1: "em' = em\<lparr>e_particles := e_particles em @ [nr ..< nr + Suc n]\<rparr>"
    by (simp add: em2_def)
  have 2: "next_ref w' = nr + Suc n"
    using nxt by simp
  have 3: "\<forall>r. r < nr \<longrightarrow> heap w' r = heap w r"
  proof (intro allI impI)
    fix r assume r: "r < nr"
    then have "heap w' r = heap w2 r" using old by simp
    with r show "heap w' r = heap w r" by (simp add: w2(2))
  qed
  have 4: "\<forall>r. nr \<le> r \<and> r < nr + Suc n \<longrightarrow> p_position (heap w' r) = e_position em"
  proof (intro allI impI)
    fix r assume r: "nr \<le> r \<and> r < nr + Suc n"
    show "p_position (heap w' r) = e_position em"
    proof (cases "r = nr")
      case True
      then have "heap w' r = heap w2 r" using old by simp
      with True have "heap w' r = p" by (simp add: w2(2))
      with new_particle_position [OF p] show ?thesis by simp
    next
      case False
      with r have "Suc nr \<le> r \<and> r < Suc nr + n" by simp
      with new have "p_position (heap w' r) = e_position em2" by blast
      then show ?thesis by (simp add: em2(2))
    qed
  qed
  from 1 2 3 4 show ?case
    unfolding nr_def by (intro conjI)
qed

lemma Emitter_emit_result:
  assumes "Emitter_emit dt em w = Inr (em1, w1)"
  shows "\<exists>n. e_particles em1 = e_particles em @ [next_ref w ..< next_ref w + n]
           \<and> next_ref w1 = next_ref w + n
           \<and> (\<forall>r. r < next_ref w \<longrightarrow> heap w1 r = heap w r)
           \<and> (\<forall>r. next_ref w \<le> r \<and> r < next_ref w + n
                  \<longrightarrow> p_position (heap w1 r) = e_position em)
           \<and> e_field_obj em1 = e_field_obj em"
proof (cases "is_complete (e_rate_obj em)")
  case True
  with assms have "em1 = em" "w1 = w"
    by (simp_all add: Emitter_emit_def)
  then have "e_particles em1 = e_particles em @ [next_ref w ..< next_ref w + 0]
           \<and> next_ref w1 = next_ref w + 0
           \<and> (\<forall>r. r < next_ref w \<longrightarrow> heap w1 r = heap w r)
           \<and> (\<forall>r. next_ref w \<le> r \<and> r < next_ref w + 0
                  \<longrightarrow> p_position (heap w1 r) = e_position em)
           \<and> e_field_obj em1 = e_field_obj em"
    by auto
  then show ?thesis by (rule exI)
next
  case False
  with assms obtain k rate' g' where
    run: "emit_particles (nat k) (em\<lparr>e_rate_obj := rate'\<rparr>) (w\<lparr>gen := g'\<rparr>) = Inr (em1, w1)"
    by (auto simp add: Emitter_emit_def split: sum.splits)
  from emit_particles_result [OF run] have
    "e_particles em1 = e_particles em @ [next_ref w ..< next_ref w + nat k]
           \<and> next_ref w1 = next_ref w + nat k
           \<and> (\<forall>r. r < next_ref w \<longrightarrow> heap w1 r = heap w r)
           \<and> (\<forall>r. next_ref w \<le> r \<and> r < next_ref w + nat k
                  \<longrightarrow> p_position (heap w1 r) = e_position em)
           \<and> e_field_obj em1 = e_field_obj em"
    by simp
  then show ?thesis by (rule exI)
qed

lemma apply_field_result:
  assumes "apply_field f dt ps w = Inr w'" and "distinct ps"
  shows "(\<forall>r. r \<notin> set ps \<longrightarrow> heap w' r = heap w r)
         \<and> (\<forall>r\<in>set ps. \<exists>accel g g'.
                get_accel_vector f (p_position (heap w r)) (p_velocity (heap w r)) g
                  = Inr (accel, g')
              \<and> heap w' r = (heap w r)
                  \<lparr>p_velocity := vadd (p_velocity (heap w r)) (vmul accel dt)\<rparr>)"
  using assms
proof (induction ps arbitrary: w)
  case Nil
  then show ?case by simp
next
  case (Cons p ps)
  from Cons.prems(1) obtain accel g' where
    acc: "get_accel_vector f (p_position (heap w p)) (p_velocity (heap w p)) (gen w)
            = Inr (accel, g')"
    by (auto split: sum.splits)
  define q where "q = (heap w p)\<lparr>p_velocity := vadd (p_velocity (heap w p)) (vmul accel dt)\<rparr>"
  define w2 where "w2 = w\<lparr>heap := (heap w)(p := q), gen := g'\<rparr>"
  from Cons.prems(1) acc have run: "apply_field f dt ps w2 = Inr w'"
    by (simp add: w2_def q_def)
  from Cons.prems(2) have fresh: "p \<notin> set ps" and dist: "distinct ps"
    by simp_all
  have w2: "heap w2 = (heap w)(p := q)"
    by (simp add: w2_def)
  from Cons.IH [OF run dist] have
    same: "\<forall>r. r \<notin> set ps \<longrightarrow> heap w' r = heap w2 r"
    and field_done: "\<forall>r\<in>set ps. \<exists>accel g g'.
                get_accel_vector f (p_position (heap w2 r)) (p_velocity (heap w2 r)) g
                  = Inr (accel, g')
              \<and> heap w' r = (heap w2 r)
                  \<lparr>p_velocity := vadd (p_velocity (heap w2 r)) (vmul accel dt)\<rparr>"
    by blast+
  have 1: "\<forall>r. r \<notin> set (p # ps) \<longrightarrow> heap w' r = heap w r"
    using same by (simp add: w2)
  have 2: "\<forall>r\<in>set (p # ps). \<exists>accel g g'.
                get_accel_vector f (p_position (heap w r)) (p_velocity (heap w r)) g
                  = Inr (accel, g')
              \<and> heap w' r = (heap w r)
                  \<lparr>p_velocity := vadd (p_velocity (heap w r)) (vmul accel dt)\<rparr>"
  proof
    fix r assume "r \<in> set (p # ps)"
    then consider "r = p" | "r \<in> set ps" "r \<noteq> p"
      using fresh by auto
    then show "\<exists>accel g g'.
                get_accel_vector f (p_position (heap w r)) (p_velocity (heap w r)) g
                  = Inr (accel, g')
              \<and> heap w' r = (heap w r)
                  \<lparr>p_velocity := vadd (p_velocity (heap w r)) (vmul accel dt)\<rparr>"
    proof cases
      case 1
      from same fresh have "heap w' p = heap w2 p" by simp
      then have "heap w' p = q" by (simp add: w2)
      with acc have "get_accel_vector f (p_position (heap w p)) (p_velocity (heap w p)) (gen w)
                  = Inr (accel, g')
              \<and> heap w' p = (heap w p)
                  \<lparr>p_velocity := vadd (p_velocity (heap w p)) (vmul accel dt)\<rparr>"
        by (simp add: q_def)
      then show ?thesis unfolding 1 by blast
    next
      case 2
      then have eq: "heap w2 r = heap w r" by (simp add: w2)
      from field_done 2(1) have "\<exists>accel g g'.
                get_accel_vector f (p_position (heap w2 r)) (p_velocity (heap w2 r)) g
                  = Inr (accel, g')
              \<and> heap w' r = (heap w2 r)
                  \<lparr>p_velocity := vadd (p_velocity (heap w2 r)) (vmul accel dt)\<rparr>"
        by (rule bspec)
      then show ?thesis by (simp only: eq)
    qed
  qed
  from 1 2 show ?case by (rule conjI)
qed

lemma Emitter_step_phases:
  assumes "Emitter_step dt em w = Inr (em', w')"
  shows "\<exists>em1 w1 w2 ps h.
           (if e_can_emit em then Emitter_emit dt em w else Inr (em, w)) = Inr (em1, w1)
         \<and> (case e_field_obj em1 of
               None \<Rightarrow> Inr w1
             | Some f \<Rightarrow> apply_field f dt (e_particles em1) w1) = Inr w2
         \<and> ActorList_step (own_step Particle_step) Particle_can_reap dt (e_particles em1) (heap w2)
             = Inr (ps, h)
         \<and> heap w' = h"
proof -
  from assms have alive: "\<not> Emitter_can_reap em"
    by (auto simp add: Emitter_step_def split: if_splits)
  with assms obtain em1 w1 where
    1: "(if e_can_emit em then Emitter_emit dt em w else Inr (em, w)) = Inr (em1, w1)"
    by (simp add: Emitter_step_def split: sum.splits prod.splits)
  with assms alive obtain w2 where
    2: "(case e_field_obj em1 of
           None \<Rightarrow> Inr w1
         | Some f \<Rightarrow> apply_field f dt (e_particles em1) w1) = Inr w2"
    by (simp add: Emitter_step_def split: sum.splits prod.splits)
  with assms alive 1 obtain ps h where
    3: "ActorList_step (own_step Particle_step) Particle_can_reap dt (e_particles em1) (heap w2)
          = Inr (ps, h)"
    by (simp add: Emitter_step_def split: sum.splits prod.splits)
  with assms alive 1 2 have "heap w' = h"
    by (auto simp add: Emitter_step_def)
  with 1 2 3 show ?thesis by blast
qed

lemma emitted_distinct:
  assumes "Emitter_inv em w"
    and "e_particles em1 = e_particles em @ [next_ref w ..< next_ref w + n]"
  shows "distinct (e_particles em1)"
proof -
  from assms(1) have "distinct (e_particles em)" and "\<forall>r\<in>set (e_particles em). r < next_ref w"
    by (simp_all add: Emitter_inv_def list_all_iff)
  then show ?thesis
    unfolding assms(2) by auto
qed


lemma example_emitter_inv:
  "Emitter_inv example_emitter example_world"
  "Emitter_inv example_burst_emitter example_world"
  by (simp_all add: Emitter_inv_def example_emitter_def example_burst_emitter_def
      example_world_def)



section \<open>Emitter: the particles of this step\<close>

text \<open>
  C10. Take an \<^verbatim>\<open>Emitter.step(dt)\<close> that returns, on an emitter that may emit and has a
  field, and a particle that its \<^verbatim>\<open>_emit\<close> created in this call. The particle was not
  in the collection before, and it is in the collection when \<^verbatim>\<open>_emit\<close> returns, at the
  position of the emitter. In the same call the field pass adds the acceleration, taken
  at the particle's first position and velocity, times \<open>dt\<close> to its velocity, and the step
  of the collection moves it by the new velocity times \<open>dt\<close> and takes \<open>dt\<close> from its
  lifetime, which stops at 0.
\<close>

theorem Emitter_step_new_particles:
  assumes "Emitter_inv em w" and "e_can_emit em" and "e_field_obj em = Some f"
    and "Emitter_step dt em w = Inr (em', w')"
    and "Emitter_emit dt em w = Inr (em1, w1)"
    and "next_ref w \<le> r" and "r < next_ref w1"
  shows "r \<notin> set (e_particles em) \<and> r \<in> set (e_particles em1)
       \<and> p_position (heap w1 r) = e_position em
       \<and> (\<exists>accel g g'.
             get_accel_vector f (p_position (heap w1 r)) (p_velocity (heap w1 r)) g
               = Inr (accel, g')
           \<and> p_velocity (heap w' r) = vadd (p_velocity (heap w1 r)) (vmul accel dt))
       \<and> p_position (heap w' r) = vadd (e_position em) (vmul (p_velocity (heap w' r)) dt)
       \<and> p_lifetime_remaining (heap w' r)
           = (if flt (fsub (p_lifetime_remaining (heap w1 r)) dt) (Finite 0) then Finite 0
              else fsub (p_lifetime_remaining (heap w1 r)) dt)"
proof -
  from Emitter_step_phases [OF assms(4)] assms(2,5) obtain w2 ps where
    field: "(case e_field_obj em1 of
               None \<Rightarrow> Inr w1
             | Some f \<Rightarrow> apply_field f dt (e_particles em1) w1) = Inr w2"
    and step: "ActorList_step (own_step Particle_step) Particle_can_reap dt (e_particles em1)
                 (heap w2) = Inr (ps, heap w')"
    by auto
  from Emitter_emit_result [OF assms(5)] obtain n where
    list: "e_particles em1 = e_particles em @ [next_ref w ..< next_ref w + n]"
    and nxt: "next_ref w1 = next_ref w + n"
    and new: "\<forall>r. next_ref w \<le> r \<and> r < next_ref w + n
                 \<longrightarrow> p_position (heap w1 r) = e_position em"
    and fobj: "e_field_obj em1 = e_field_obj em"
    by blast
  have dist: "distinct (e_particles em1)"
    using assms(1) list by (rule emitted_distinct)
  from assms(6,7) nxt have range: "next_ref w \<le> r \<and> r < next_ref w + n"
    by simp
  then have mem: "r \<in> set (e_particles em1)"
    by (simp add: list)
  from assms(1) have "\<forall>q\<in>set (e_particles em). q < next_ref w"
    by (simp add: Emitter_inv_def list_all_iff)
  with assms(6) have fresh: "r \<notin> set (e_particles em)"
    by auto
  from new range have born: "p_position (heap w1 r) = e_position em"
    by blast
  from field fobj assms(3) have "apply_field f dt (e_particles em1) w1 = Inr w2"
    by simp
  from apply_field_result [OF this dist] mem obtain accel g g' where
    acc: "get_accel_vector f (p_position (heap w1 r)) (p_velocity (heap w1 r)) g
            = Inr (accel, g')"
    and after_field:
      "heap w2 r = (heap w1 r)\<lparr>p_velocity := vadd (p_velocity (heap w1 r)) (vmul accel dt)\<rparr>"
    by blast
  from particles_stepped [OF step dist mem] have
    stepped: "Particle_step dt (heap w2 r) = Inr (heap w' r)" .
  have vel: "p_velocity (heap w' r) = vadd (p_velocity (heap w1 r)) (vmul accel dt)"
    using Particle_step_result(2) [OF stepped] by (simp add: after_field)
  have pos: "p_position (heap w' r) = vadd (e_position em) (vmul (p_velocity (heap w' r)) dt)"
    using Particle_step_result(1) [OF stepped] by (simp add: vel after_field born)
  have life: "p_lifetime_remaining (heap w' r)
           = (if flt (fsub (p_lifetime_remaining (heap w1 r)) dt) (Finite 0) then Finite 0
              else fsub (p_lifetime_remaining (heap w1 r)) dt)"
    using Particle_step_result(3) [OF stepped] by (simp add: after_field)
  from acc vel have "\<exists>accel g g'.
             get_accel_vector f (p_position (heap w1 r)) (p_velocity (heap w1 r)) g
               = Inr (accel, g')
           \<and> p_velocity (heap w' r) = vadd (p_velocity (heap w1 r)) (vmul accel dt)"
    by blast
  with fresh mem born pos life show ?thesis
    by (intro conjI)
qed

lemma Emitter_emit_example:
  "Emitter_emit (Finite 1) example_burst_emitter example_world
     = Inr (example_burst_emitter\<lparr>e_rate_obj := EmitterRate_Burst 1 True, e_particles := [3]\<rparr>,
            example_world\<lparr>heap := example_heap
              (3 := \<lparr>p_position = \<lparr>vx = Finite 0, vy = Finite 0\<rparr>,
                     p_velocity = \<lparr>vx = Finite 1, vy = Finite 0\<rparr>,
                     p_lifetime_remaining = Finite 2,
                     p_color = PyTuple [PyInt 255, PyInt 255, PyInt 255], p_size = 0\<rparr>),
              next_ref := 4\<rparr>)"
proof -
  have rate: "e_rate_obj example_burst_emitter = Burst_init 1"
    and parts: "e_particles example_burst_emitter = []"
    by (simp_all add: example_burst_emitter_def)
  have p: "new_particle (example_burst_emitter\<lparr>e_rate_obj := EmitterRate_Burst 1 True\<rparr>) g
     = Inr (\<lparr>p_position = \<lparr>vx = Finite 0, vy = Finite 0\<rparr>,
             p_velocity = \<lparr>vx = Finite 1, vy = Finite 0\<rparr>,
             p_lifetime_remaining = Finite 2,
             p_color = PyTuple [PyInt 255, PyInt 255, PyInt 255], p_size = 0\<rparr>, g)" for g
    by (simp add: new_particle_def example_burst_emitter_def example_emitter_def vmul_def
        round_double_0 round_double_small_ints)
  have run: "emit_particles (Suc 0)
               (example_burst_emitter\<lparr>e_rate_obj := EmitterRate_Burst 1 True\<rparr>)
               (example_world\<lparr>gen := gen example_world\<rparr>)
     = Inr (example_burst_emitter\<lparr>e_rate_obj := EmitterRate_Burst 1 True, e_particles := [3]\<rparr>,
            example_world\<lparr>heap := example_heap
              (3 := \<lparr>p_position = \<lparr>vx = Finite 0, vy = Finite 0\<rparr>,
                     p_velocity = \<lparr>vx = Finite 1, vy = Finite 0\<rparr>,
                     p_lifetime_remaining = Finite 2,
                     p_color = PyTuple [PyInt 255, PyInt 255, PyInt 255], p_size = 0\<rparr>),
              next_ref := 4\<rparr>)"
    by (simp add: p parts example_world_def Let_def)
  show ?thesis
    unfolding Emitter_emit_def rate
    using run by (simp add: Burst_init_def del: emit_particles.simps)
qed

lemma Emitter_step_burst_example:
  "Emitter_step (Finite 1) example_burst_emitter example_world
     = Inr (example_burst_emitter\<lparr>e_rate_obj := EmitterRate_Burst 1 True, e_particles := [3]\<rparr>,
            example_world\<lparr>heap := example_heap
              (3 := \<lparr>p_position = \<lparr>vx = Finite 2, vy = Finite 0\<rparr>,
                     p_velocity = \<lparr>vx = Finite 2, vy = Finite 0\<rparr>,
                     p_lifetime_remaining = Finite 1,
                     p_color = PyTuple [PyInt 255, PyInt 255, PyInt 255], p_size = 0\<rparr>),
              next_ref := 4\<rparr>)"
proof -
  have alive: "\<not> Emitter_can_reap example_burst_emitter"
    and emits: "e_can_emit example_burst_emitter"
    by (simp_all add: Emitter_can_reap_def example_burst_emitter_def example_emitter_def
        Burst_init_def)
  have fobj: "e_field_obj example_burst_emitter
                = Some (cEmitterField_Constant \<lparr>vx = Finite 1, vy = Finite 0\<rparr>)"
    by (simp add: example_burst_emitter_def example_emitter_def)
  show ?thesis
    unfolding Emitter_step_def
    by (simp add: alive emits Emitter_emit_example fobj ActorList_step_def own_step_def
        list_remove_def Particle_step_def Particle_can_reap_def vadd_def vmul_def fsub_def
        Let_def round_double_0 round_double_small_ints)
qed

theorem Emitter_step_new_particles_witness:
  "Emitter_inv example_burst_emitter example_world \<and> e_can_emit example_burst_emitter
   \<and> e_field_obj example_burst_emitter
       = Some (cEmitterField_Constant \<lparr>vx = Finite 1, vy = Finite 0\<rparr>)
   \<and> next_ref example_world \<le> 3
   \<and> (\<exists>em1 w1 em' w'.
         Emitter_emit (Finite 1) example_burst_emitter example_world = Inr (em1, w1)
       \<and> Emitter_step (Finite 1) example_burst_emitter example_world = Inr (em', w')
       \<and> 3 < next_ref w1
       \<and> 3 \<notin> set (e_particles example_burst_emitter) \<and> 3 \<in> set (e_particles em1)
       \<and> p_velocity (heap w1 3) = \<lparr>vx = Finite 1, vy = Finite 0\<rparr>
       \<and> p_velocity (heap w' 3) = \<lparr>vx = Finite 2, vy = Finite 0\<rparr>
       \<and> p_position (heap w' 3)
           = vadd (e_position example_burst_emitter) (vmul (p_velocity (heap w' 3)) (Finite 1))
       \<and> p_position (heap w' 3) = \<lparr>vx = Finite 2, vy = Finite 0\<rparr>
       \<and> p_lifetime_remaining (heap w' 3) = Finite 1)"
proof -
  define em1 where
    "em1 = example_burst_emitter\<lparr>e_rate_obj := EmitterRate_Burst 1 True, e_particles := [3]\<rparr>"
  define w1 where
    "w1 = example_world\<lparr>heap := example_heap
              (3 := \<lparr>p_position = \<lparr>vx = Finite 0, vy = Finite 0\<rparr>,
                     p_velocity = \<lparr>vx = Finite 1, vy = Finite 0\<rparr>,
                     p_lifetime_remaining = Finite 2,
                     p_color = PyTuple [PyInt 255, PyInt 255, PyInt 255], p_size = 0\<rparr>),
              next_ref := 4\<rparr>"
  define w' where
    "w' = example_world\<lparr>heap := example_heap
              (3 := \<lparr>p_position = \<lparr>vx = Finite 2, vy = Finite 0\<rparr>,
                     p_velocity = \<lparr>vx = Finite 2, vy = Finite 0\<rparr>,
                     p_lifetime_remaining = Finite 1,
                     p_color = PyTuple [PyInt 255, PyInt 255, PyInt 255], p_size = 0\<rparr>),
              next_ref := 4\<rparr>"
  have emit: "Emitter_emit (Finite 1) example_burst_emitter example_world = Inr (em1, w1)"
    unfolding em1_def w1_def by (rule Emitter_emit_example)
  have step: "Emitter_step (Finite 1) example_burst_emitter example_world = Inr (em1, w')"
    unfolding em1_def w'_def by (rule Emitter_step_burst_example)
  have emits: "e_can_emit example_burst_emitter"
    by (simp add: example_burst_emitter_def example_emitter_def)
  have fobj: "e_field_obj example_burst_emitter
                 = Some (cEmitterField_Constant \<lparr>vx = Finite 1, vy = Finite 0\<rparr>)"
    by (simp add: example_burst_emitter_def example_emitter_def)
  have lo: "next_ref example_world \<le> 3"
    by (simp add: example_world_def)
  have hi: "3 < next_ref w1"
    by (simp add: w1_def)
  note result = Emitter_step_new_particles
    [OF example_emitter_inv(2) emits fobj step emit lo hi]
  note mem1 = result [THEN conjunct1]
  note mem2 = result [THEN conjunct2, THEN conjunct1]
  note pos = result [THEN conjunct2, THEN conjunct2, THEN conjunct2, THEN conjunct2,
      THEN conjunct1]
  have v1: "p_velocity (heap w1 3) = \<lparr>vx = Finite 1, vy = Finite 0\<rparr>"
    by (simp add: w1_def)
  have v2: "p_velocity (heap w' 3) = \<lparr>vx = Finite 2, vy = Finite 0\<rparr>"
    by (simp add: w'_def)
  have p2: "p_position (heap w' 3) = \<lparr>vx = Finite 2, vy = Finite 0\<rparr>"
    by (simp add: w'_def)
  have l2: "p_lifetime_remaining (heap w' 3) = Finite 1"
    by (simp add: w'_def)
  let ?P = "\<lambda>em1 w1 em' w'.
         Emitter_emit (Finite 1) example_burst_emitter example_world = Inr (em1, w1)
       \<and> Emitter_step (Finite 1) example_burst_emitter example_world = Inr (em', w')
       \<and> 3 < next_ref w1
       \<and> 3 \<notin> set (e_particles example_burst_emitter) \<and> 3 \<in> set (e_particles em1)
       \<and> p_velocity (heap w1 3) = \<lparr>vx = Finite 1, vy = Finite 0\<rparr>
       \<and> p_velocity (heap w' 3) = \<lparr>vx = Finite 2, vy = Finite 0\<rparr>
       \<and> p_position (heap w' 3)
           = vadd (e_position example_burst_emitter) (vmul (p_velocity (heap w' 3)) (Finite 1))
       \<and> p_position (heap w' 3) = \<lparr>vx = Finite 2, vy = Finite 0\<rparr>
       \<and> p_lifetime_remaining (heap w' 3) = Finite 1"
  from emit step hi mem1 mem2 v1 v2 pos p2 l2 have "?P em1 w1 em1 w'"
    by (intro conjI)
  then have "\<exists>w'. ?P em1 w1 em1 w'"
    by (rule exI [of "\<lambda>x. ?P em1 w1 em1 x"])
  then have "\<exists>em' w'. ?P em1 w1 em' w'"
    by (rule exI [of "\<lambda>x. \<exists>w'. ?P em1 w1 x w'"])
  then have "\<exists>w1 em' w'. ?P em1 w1 em' w'"
    by (rule exI [of "\<lambda>x. \<exists>em' w'. ?P em1 x em' w'"])
  then have "\<exists>em1 w1 em' w'. ?P em1 w1 em' w'"
    by (rule exI [of "\<lambda>x. \<exists>w1 em' w'. ?P x w1 em' w'"])
  with example_emitter_inv(2) emits fobj lo show ?thesis
    by (intro conjI)
qed

end
